theory Spec2Isabelle
  imports Main "HOL-Library.Word" "HOL-Library.Multiset" "HOL-Library.List_Lexorder"
begin

unbundle bit_operations_syntax

section \<open>The CP voting API (api/index.js)\<close>

text \<open>
  The service is one Express application with five routes over two MongoDB
  collections, \<open>cps\<close> and \<open>vote_logs\<close>. Each route handler is embedded as a function
  from the request, the environment of that request (clock, time zone, the driver's
  behaviour) and the world (the process-wide \<open>db\<close> variable and the two collections)
  to a response and the new world. Every \<open>throw\<close> of the source is a value (\<open>Inl\<close> of a
  sum), and every \<open>catch\<close> is the branch of the handler that maps it to its response.
\<close>

subsection \<open>JavaScript strings\<close>

text \<open>
  A string is the list of its Unicode code points. The literals of the source that are
  ASCII are written with \<open>ascii\<close>; the Chinese literals are written out as code points.
\<close>

type_synonym jsstring = "nat list"

definition ascii :: "string \<Rightarrow> jsstring" where
  "ascii s = map of_char s"

text \<open>\<open>String.prototype.startsWith\<close> and \<open>String.prototype.includes\<close> (here \<open>includes_str\<close>).\<close>

fun startsWith :: "jsstring \<Rightarrow> jsstring \<Rightarrow> bool" where
  "startsWith s [] = True"
| "startsWith [] (p # ps) = False"
| "startsWith (c # cs) (p # ps) = (c = p \<and> startsWith cs ps)"

fun includes_str :: "jsstring \<Rightarrow> jsstring \<Rightarrow> bool" where
  "includes_str [] p = (p = [])"
| "includes_str (c # cs) p = (startsWith (c # cs) p \<or> includes_str cs p)"

text \<open>
  \<open>String.prototype.trim\<close> removes the ECMAScript WhiteSpace and LineTerminator code
  points from both ends: TAB, LF, VT, FF, CR, SP, NBSP, U+1680, U+2000 to U+200A,
  U+2028, U+2029, U+202F, U+205F, U+3000 and U+FEFF.
\<close>

definition isWhiteSpace :: "nat \<Rightarrow> bool" where
  "isWhiteSpace c \<longleftrightarrow>
     (9 \<le> c \<and> c \<le> 13) \<or> c = 32 \<or> c = 160 \<or> c = 5760 \<or> (8192 \<le> c \<and> c \<le> 8202) \<or>
     c = 8232 \<or> c = 8233 \<or> c = 8239 \<or> c = 8287 \<or> c = 12288 \<or> c = 65279"

definition trim :: "jsstring \<Rightarrow> jsstring" where
  "trim s = rev (dropWhile isWhiteSpace (rev (dropWhile isWhiteSpace s)))"

text \<open>\<open>x || y\<close> on strings that may be \<open>undefined\<close>: the empty string is falsy too.\<close>

definition or_else :: "jsstring option \<Rightarrow> jsstring \<Rightarrow> jsstring" where
  "or_else x d = (case x of None \<Rightarrow> d | Some s \<Rightarrow> if s = [] then d else s)"

subsection \<open>Thrown errors and responses\<close>

text \<open>
  A thrown \<open>Error\<close> with its \<open>message\<close>; a \<open>MulterError\<close> with its \<open>code\<close>, of which the
  error middleware tells \<open>LIMIT_FILE_SIZE\<close> from the others.
\<close>

datatype multer_code = LIMIT_FILE_SIZE | LIMIT_FIELD_VALUE | LIMIT_UNEXPECTED_FILE

datatype js_error = JsError jsstring | MulterError multer_code

text \<open>
  The \<open>error\<close> texts of the JSON bodies, one constructor per literal of the source, and
  \<open>Thrown\<close> for the body that repeats a caught error's own message (line 146).
\<close>

datatype message =
    InvalidIdFormat      \<comment> \<open>lines 161 and 224: invalid CP id format\<close>
  | AlreadyVotedToday    \<comment> \<open>line 182: already voted for this CP today\<close>
  | CpNotFound           \<comment> \<open>lines 193 and 232: CP not found\<close>
  | VoteFailed           \<comment> \<open>line 214: voting failed, retry later\<close>
  | NameRequired         \<comment> \<open>line 111: the CP name must not be empty\<close>
  | ImageRequired        \<comment> \<open>line 114: please upload an image\<close>
  | CreateFailed         \<comment> \<open>line 148: internal error, creation failed\<close>
  | FetchFailed          \<comment> \<open>lines 99 and 238: fetching data failed\<close>
  | FileTooLarge         \<comment> \<open>line 247: the uploaded image must be smaller than 5MB\<close>
  | ServerError          \<comment> \<open>line 250: internal server error\<close>
  | DatabaseDisconnected \<comment> \<open>lines 65 to 70: database connection abnormal\<close>
  | Thrown jsstring

subsection \<open>ObjectId\<close>

text \<open>
  An ObjectId is twelve bytes. \<open>ObjectId.isValid\<close> on a route parameter (a string)
  holds for a string of 24 hexadecimal digits, and \<open>new ObjectId\<close> of such a string is
  the value the digits denote, so the letter case of the digits is immaterial;
  on any other string the constructor throws.
\<close>

type_synonym ObjectId = "96 word"

definition hexval :: "nat \<Rightarrow> nat option" where
  "hexval c =
     (if 48 \<le> c \<and> c \<le> 57 then Some (c - 48)
      else if 97 \<le> c \<and> c \<le> 102 then Some (c - 87)
      else if 65 \<le> c \<and> c \<le> 70 then Some (c - 55)
      else None)"

definition ObjectId_isValid :: "jsstring \<Rightarrow> bool" where
  "ObjectId_isValid s \<longleftrightarrow> length s = 24 \<and> list_all (\<lambda>c. hexval c \<noteq> None) s"

definition hexnum :: "jsstring \<Rightarrow> nat" where
  "hexnum s = foldl (\<lambda>a c. 16 * a + (case hexval c of None \<Rightarrow> 0 | Some d \<Rightarrow> d)) 0 s"

definition ObjectId_new :: "jsstring \<Rightarrow> js_error + ObjectId" where
  "ObjectId_new s =
     (if ObjectId_isValid s then Inr (word_of_nat (hexnum s))
      else Inl (JsError (ascii ''input must be a 24 character hex string'')))"

definition hexdigit :: "nat \<Rightarrow> nat" where
  "hexdigit d = (if d < 10 then 48 + d else 87 + d)"

definition toHexString :: "ObjectId \<Rightarrow> jsstring" where
  "toHexString x = map (\<lambda>i. hexdigit (unat (drop_bit (4 * i) x AND 15))) (rev [0..<24])"

subsection \<open>Buffers and Base64\<close>

text \<open>\<open>Buffer.prototype.toString('base64')\<close>: the standard alphabet, padded with \<open>=\<close>.\<close>

definition b64char :: "nat \<Rightarrow> nat" where
  "b64char n =
     (if n < 26 then 65 + n
      else if n < 52 then 71 + n
      else if n < 62 then n - 4
      else if n = 62 then 43
      else 47)"

fun base64 :: "8 word list \<Rightarrow> jsstring" where
  "base64 [] = []"
| "base64 [a] =
     [b64char (unat a div 4), b64char (unat a mod 4 * 16), 61, 61]"
| "base64 [a, b] =
     [b64char (unat a div 4), b64char (unat a mod 4 * 16 + unat b div 16),
      b64char (unat b mod 16 * 4), 61]"
| "base64 (a # b # c # rest) =
     [b64char (unat a div 4), b64char (unat a mod 4 * 16 + unat b div 16),
      b64char (unat b mod 16 * 4 + unat c div 64), b64char (unat c mod 64)] @ base64 rest"

subsection \<open>Dates\<close>

text \<open>
  A \<open>Date\<close> is its time value, the milliseconds since the epoch. \<open>setHours(0, 0, 0, 0)\<close>
  moves a date to the start of its local day; the local time zone is given by the
  offset \<open>Date.prototype.getTimezoneOffset\<close> reports (minutes, UTC minus local time),
  taken as constant over the day.
\<close>

definition msPerDay :: int where
  "msPerDay = 86400000"

definition setHours0 :: "int \<Rightarrow> int \<Rightarrow> int" where
  "setHours0 off t = t - ((t - off * 60000) mod msPerDay)"

subsection \<open>Documents, collections and the world\<close>

text \<open>
  A document of \<open>cps\<close> (its \<open>_id\<close> is the field \<open>cp_id\<close>) and a document of \<open>vote_logs\<close>
  (whose own \<open>_id\<close> no route reads, and which is left out).
\<close>

record cp =
  cp_id :: ObjectId
  name :: jsstring
  description :: jsstring
  imageUrl :: jsstring
  votes :: int
  createdAt :: int
  updatedAt :: int

record vote_log =
  cpId :: ObjectId
  voterIp :: jsstring
  votedAt :: int

text \<open>
  The world: the global variable \<open>db\<close> (line 32; a handle is identified by the number
  of the client that produced it), the number of clients connected so far, and the
  two collections in insertion order.
\<close>

record world =
  db :: "nat option"
  clients :: nat
  cps :: "cp list"
  vote_logs :: "vote_log list"

text \<open>
  The environment of one request: whether the store answers during it (\<open>None\<close>) or
  every call of the driver rejects with the given message (the driver's messages are
  plain 8-bit text); the successive readings of
  the clock (\<open>clock env k\<close> is the \<open>k\<close>-th \<open>new Date()\<close> of the handler); the local time
  zone; the \<open>_id\<close> the driver generates for an inserted document.
\<close>

record env =
  storeFailure :: "string option"
  clock :: "nat \<Rightarrow> int"
  tzOffset :: int
  insertedId :: ObjectId

definition driverCall :: "env \<Rightarrow> js_error option" where
  "driverCall e = (case storeFailure e of None \<Rightarrow> None | Some m \<Rightarrow> Some (JsError (ascii m)))"

text \<open>\<open>connectToDatabase\<close>, lines 36 to 48.\<close>

definition connectToDatabase :: "env \<Rightarrow> world \<Rightarrow> (js_error + nat) \<times> world" where
  "connectToDatabase e w =
     (case db w of
        Some h \<Rightarrow> (Inr h, w)
      | None \<Rightarrow>
          (case driverCall e of
             Some err \<Rightarrow> (Inl err, w)
           | None \<Rightarrow> (Inr (clients w), w\<lparr>db := Some (clients w), clients := Suc (clients w)\<rparr>)))"

text \<open>
  The collection methods the handlers call. \<open>_id\<close> carries MongoDB's unique index, so
  \<open>insertOne\<close> rejects a document whose \<open>_id\<close> is taken; \<open>updateOne\<close> changes the first
  document that matches and reports \<open>matchedCount\<close>; \<open>findOne\<close> is \<open>find\<close> of the list
  library, the first match or nothing.
\<close>

definition insertOne :: "cp \<Rightarrow> cp list \<Rightarrow> js_error + cp list" where
  "insertOne d ds =
     (if cp_id d \<in> set (map cp_id ds) then Inl (JsError (ascii ''E11000 duplicate key error''))
      else Inr (ds @ [d]))"

fun updateOne :: "ObjectId \<Rightarrow> (cp \<Rightarrow> cp) \<Rightarrow> cp list \<Rightarrow> nat \<times> cp list" where
  "updateOne i f [] = (0, [])"
| "updateOne i f (d # ds) =
     (if cp_id d = i then (1, f d # ds)
      else (case updateOne i f ds of (n, ds') \<Rightarrow> (n, d # ds')))"

datatype sort_option = CreatedAtDesc | NameAsc | VotesDesc

text \<open>\<open>find().sort(sortOption).toArray()\<close>: strings compare by code point.\<close>

definition find_sort :: "sort_option \<Rightarrow> cp list \<Rightarrow> cp list" where
  "find_sort opt ds =
     (case opt of
        CreatedAtDesc \<Rightarrow> sort_key (\<lambda>d. - createdAt d) ds
      | NameAsc \<Rightarrow> sort_key name ds
      | VotesDesc \<Rightarrow> sort_key (\<lambda>d. - votes d) ds)"

subsection \<open>Requests and responses\<close>

record upload =
  mimetype :: jsstring
  buffer :: "8 word list"

text \<open>
  The multipart body of a creation: the text fields \<open>name\<close> and \<open>description\<close>, the file
  part \<open>image\<close> (each present or not), and, since the parser reads the parts in the
  order they are sent and stops at the first error, which of the text fields come before
  the file part.
\<close>

record create_req =
  body_name :: "jsstring option"
  body_description :: "jsstring option"
  image :: "upload option"
  name_before_image :: bool
  description_before_image :: bool

record vote_req =
  params_id :: jsstring
  req_ip :: "jsstring option"
  x_forwarded_for :: "jsstring option"

datatype response =
    HealthOk int         \<comment> \<open>200, with the timestamp\<close>
  | CpList "cp list"     \<comment> \<open>200, the array of documents\<close>
  | Created ObjectId cp  \<comment> \<open>201, \<open>cpId\<close> and \<open>cp\<close>\<close>
  | VoteOk int           \<comment> \<open>200, \<open>newVoteCount\<close>\<close>
  | CpDoc cp             \<comment> \<open>200, the document\<close>
  | Failure nat message  \<comment> \<open>the status and the \<open>error\<close> text\<close>

fun status :: "response \<Rightarrow> nat" where
  "status (Created _ _) = 201"
| "status (Failure n _) = n"
| "status _ = 200"

subsection \<open>Upload middleware (lines 17 to 29) and error middleware (lines 243 to 251)\<close>

text \<open>
  The message of the file filter's error, line 26, and the phrase the creation
  handler looks for in a caught message, line 145 (four characters of the former).
\<close>

definition fileFilterMessage :: jsstring where
  "fileFilterMessage =
     [0x53EA, 0x5141, 0x8BB8, 0x4E0A, 0x4F20, 0x56FE, 0x7247, 0x6587, 0x4EF6]
       @ ascii '' (jpeg, png, gif'' @ [0x7B49] @ ascii '')''"

definition imageFilePhrase :: jsstring where
  "imageFilePhrase = [0x56FE, 0x7247, 0x6587, 0x4EF6]"

definition fileSizeLimit :: nat where
  "fileSizeLimit = 5 * 1024 * 1024"

text \<open>
  The source sets \<open>limits.fileSize\<close> only, so the size of a text field keeps the
  middleware's default, 1 MiB, counted in the bytes of the value as sent (UTF-8).
\<close>

definition fieldSizeLimit :: nat where
  "fieldSizeLimit = 1024 * 1024"

definition utf8_bytes :: "nat \<Rightarrow> nat" where
  "utf8_bytes c = (if c < 0x80 then 1 else if c < 0x800 then 2 else if c < 0x10000 then 3 else 4)"

definition utf8_length :: "jsstring \<Rightarrow> nat" where
  "utf8_length s = sum_list (map utf8_bytes s)"

definition overlong :: "jsstring option \<Rightarrow> bool" where
  "overlong x = (case x of None \<Rightarrow> False | Some s \<Rightarrow> fieldSizeLimit < utf8_length s)"

text \<open>
  \<open>upload.single('image')\<close> reads the parts in order. A text field over its limit raises
  \<open>LIMIT_FIELD_VALUE\<close>; at the file part the filter sees the MIME type first, and a
  payload over the limit then raises \<open>LIMIT_FILE_SIZE\<close>. The first error goes to
  \<open>next(err)\<close>, so the route handler does not run and the error middleware answers.
  (A value of exactly the limit is at the boundary on which the versions of the parser
  differ; here it passes.)
\<close>

definition upload_single :: "create_req \<Rightarrow> js_error + upload option" where
  "upload_single r =
     (case image r of
        None \<Rightarrow>
          if overlong (body_name r) \<or> overlong (body_description r)
          then Inl (MulterError LIMIT_FIELD_VALUE)
          else Inr None
      | Some f \<Rightarrow>
          if (name_before_image r \<and> overlong (body_name r)) \<or>
             (description_before_image r \<and> overlong (body_description r))
          then Inl (MulterError LIMIT_FIELD_VALUE)
          else if \<not> startsWith (mimetype f) (ascii ''image/'') then Inl (JsError fileFilterMessage)
          else if fileSizeLimit < length (buffer f) then Inl (MulterError LIMIT_FILE_SIZE)
          else if overlong (body_name r) \<or> overlong (body_description r)
          then Inl (MulterError LIMIT_FIELD_VALUE)
          else Inr (Some f))"

definition errorMiddleware :: "js_error \<Rightarrow> response" where
  "errorMiddleware err =
     (case err of
        MulterError LIMIT_FILE_SIZE \<Rightarrow> Failure 400 FileTooLarge
      | _ \<Rightarrow> Failure 500 ServerError)"

subsection \<open>Route handlers\<close>

text \<open>\<open>GET /api/health\<close>, lines 53 to 72.\<close>

definition healthCheck :: "env \<Rightarrow> world \<Rightarrow> response \<times> world" where
  "healthCheck e w =
     (case connectToDatabase e w of
        (Inl err, w1) \<Rightarrow> (Failure 500 DatabaseDisconnected, w1)
      | (Inr database, w1) \<Rightarrow>
          (case driverCall e of
             Some err \<Rightarrow> (Failure 500 DatabaseDisconnected, w1)
           | None \<Rightarrow> (HealthOk (clock e 0), w1)))"

text \<open>
  \<open>GET /api/cps\<close>, lines 75 to 101. The query parameter is absent (\<open>None\<close>) or a
  string; the \<open>switch\<close> sends everything but \<open>newest\<close> and \<open>name\<close> to the default.
\<close>

definition sortOption :: "jsstring option \<Rightarrow> sort_option" where
  "sortOption q =
     (let sort = (case q of None \<Rightarrow> ascii ''votes'' | Some s \<Rightarrow> s)
      in if sort = ascii ''newest'' then CreatedAtDesc
         else if sort = ascii ''name'' then NameAsc
         else VotesDesc)"

definition getCPs :: "env \<Rightarrow> jsstring option \<Rightarrow> world \<Rightarrow> response \<times> world" where
  "getCPs e q w =
     (case connectToDatabase e w of
        (Inl err, w1) \<Rightarrow> (Failure 500 FetchFailed, w1)
      | (Inr database, w1) \<Rightarrow>
          (case driverCall e of
             Some err \<Rightarrow> (Failure 500 FetchFailed, w1)
           | None \<Rightarrow> (CpList (find_sort (sortOption q) (cps w1)), w1)))"

text \<open>\<open>POST /api/cps\<close>, lines 104 to 151. The placeholder is the literal of line 124.\<close>

definition placeholder :: jsstring where
  "placeholder = [0x6682, 0x65E0, 0x63CF, 0x8FF0]"

definition createCatch :: "js_error \<Rightarrow> response" where
  "createCatch err =
     (case err of
        JsError m \<Rightarrow>
          if includes_str m imageFilePhrase then Failure 400 (Thrown m)
          else Failure 500 CreateFailed
      | MulterError c \<Rightarrow> Failure 500 CreateFailed)"

definition createCP :: "env \<Rightarrow> create_req \<Rightarrow> world \<Rightarrow> response \<times> world" where
  "createCP e r w =
     (case upload_single r of
        Inl err \<Rightarrow> (errorMiddleware err, w)
      | Inr imageFile \<Rightarrow>
          (case body_name r of
             None \<Rightarrow> (Failure 400 NameRequired, w)
           | Some nm \<Rightarrow>
               if nm = [] \<or> trim nm = [] then (Failure 400 NameRequired, w)
               else
                 (case imageFile of
                    None \<Rightarrow> (Failure 400 ImageRequired, w)
                  | Some f \<Rightarrow>
                      let imageBase64 = base64 (buffer f);
                          url = ascii ''data:'' @ mimetype f @ ascii '';base64,'' @ imageBase64;
                          newCP = \<lparr>cp_id = insertedId e,
                                   name = trim nm,
                                   description = trim (or_else (body_description r) placeholder),
                                   imageUrl = url,
                                   votes = 0,
                                   createdAt = clock e 0,
                                   updatedAt = clock e 1\<rparr>
                      in (case connectToDatabase e w of
                            (Inl err, w1) \<Rightarrow> (createCatch err, w1)
                          | (Inr database, w1) \<Rightarrow>
                              (case driverCall e of
                                 Some err \<Rightarrow> (createCatch err, w1)
                               | None \<Rightarrow>
                                   (case insertOne newCP (cps w1) of
                                      Inl err \<Rightarrow> (createCatch err, w1)
                                    | Inr ds \<Rightarrow>
                                        (Created (insertedId e) newCP, w1\<lparr>cps := ds\<rparr>)))))))"

text \<open>\<open>POST /api/cps/:id/vote\<close>, lines 154 to 216.\<close>

definition voterIpOf :: "vote_req \<Rightarrow> jsstring" where
  "voterIpOf r =
     or_else (req_ip r) (or_else (x_forwarded_for r) (ascii ''unknown''))"

definition vote :: "env \<Rightarrow> vote_req \<Rightarrow> world \<Rightarrow> response \<times> world" where
  "vote e r w =
     (let ip = voterIpOf r
      in if \<not> ObjectId_isValid (params_id r) then (Failure 400 InvalidIdFormat, w)
         else
           (case connectToDatabase e w of
              (Inl err, w1) \<Rightarrow> (Failure 500 VoteFailed, w1)
            | (Inr database, w1) \<Rightarrow>
                (case ObjectId_new (params_id r) of
                   Inl err \<Rightarrow> (Failure 500 VoteFailed, w1)
                 | Inr objectId \<Rightarrow>
                     let todayStart = setHours0 (tzOffset e) (clock e 0)
                     in (case driverCall e of
                           Some err \<Rightarrow> (Failure 500 VoteFailed, w1)
                         | None \<Rightarrow>
                             (case find (\<lambda>l. cpId l = objectId \<and> voterIp l = ip \<and>
                                              todayStart \<le> votedAt l) (vote_logs w1) of
                                Some existingVote \<Rightarrow> (Failure 400 AlreadyVotedToday, w1)
                              | None \<Rightarrow>
                                  (case updateOne objectId
                                          (\<lambda>d. d\<lparr>votes := votes d + 1, updatedAt := clock e 1\<rparr>)
                                          (cps w1) of
                                     (matchedCount, ds) \<Rightarrow>
                                       if matchedCount = 0
                                       then (Failure 404 CpNotFound, w1\<lparr>cps := ds\<rparr>)
                                       else
                                         let w2 = w1\<lparr>cps := ds,
                                                     vote_logs := vote_logs w1 @
                                                       [\<lparr>cpId = objectId, voterIp = ip,
                                                         votedAt = clock e 2\<rparr>]\<rparr>
                                         in (case find (\<lambda>d. cp_id d = objectId) (cps w2) of
                                               None \<Rightarrow> (Failure 500 VoteFailed, w2)
                                             | Some updatedCP \<Rightarrow>
                                                 (VoteOk (votes updatedCP), w2))))))))"

text \<open>\<open>GET /api/cps/:id\<close>, lines 219 to 240.\<close>

definition getCPDetail :: "env \<Rightarrow> jsstring \<Rightarrow> world \<Rightarrow> response \<times> world" where
  "getCPDetail e i w =
     (if \<not> ObjectId_isValid i then (Failure 400 InvalidIdFormat, w)
      else
        (case connectToDatabase e w of
           (Inl err, w1) \<Rightarrow> (Failure 500 FetchFailed, w1)
         | (Inr database, w1) \<Rightarrow>
             (case ObjectId_new i of
                Inl err \<Rightarrow> (Failure 500 FetchFailed, w1)
              | Inr objectId \<Rightarrow>
                  (case driverCall e of
                     Some err \<Rightarrow> (Failure 500 FetchFailed, w1)
                   | None \<Rightarrow>
                       (case find (\<lambda>d. cp_id d = objectId) (cps w1) of
                          None \<Rightarrow> (Failure 404 CpNotFound, w1)
                        | Some c \<Rightarrow> (CpDoc c, w1))))))"

subsection \<open>The application\<close>

datatype request =
    Health
  | GetCPs "jsstring option"
  | CreateCP create_req
  | Vote vote_req
  | GetCPDetail jsstring

fun handle :: "env \<Rightarrow> request \<Rightarrow> world \<Rightarrow> response \<times> world" where
  "handle e Health w = healthCheck e w"
| "handle e (GetCPs q) w = getCPs e q w"
| "handle e (CreateCP r) w = createCP e r w"
| "handle e (Vote r) w = vote e r w"
| "handle e (GetCPDetail i) w = getCPDetail e i w"

text \<open>
  The worlds the service can be in: it starts with no connection and empty
  collections; each request moves it on; the process may be restarted, which loses the
  variable \<open>db\<close> and keeps the store.
\<close>

definition initial :: world where
  "initial = \<lparr>db = None, clients = 0, cps = [], vote_logs = []\<rparr>"

inductive reachable :: "world \<Rightarrow> bool" where
  reach_initial: "reachable initial"
| reach_request: "reachable w \<Longrightarrow> reachable (snd (handle e rq w))"
| reach_restart: "reachable w \<Longrightarrow> reachable (w\<lparr>db := None\<rparr>)"

text \<open>A sequence of requests, each with its environment, served one after the other.\<close>

fun run :: "(env \<times> request) list \<Rightarrow> world \<Rightarrow> world" where
  "run [] w = w"
| "run ((e, rq) # rest) w = run rest (snd (handle e rq w))"

subsection \<open>Sample data\<close>

text \<open>A creation request, the item it stores, vote requests, and an environment whose clock
  starts at a given time in the zone UTC+8.\<close>

definition sample_id :: jsstring where
  "sample_id = ascii ''0000000000000000000000a7''"

definition sample_create :: create_req where
  "sample_create = \<lparr>body_name = Some (ascii ''A''), body_description = Some (ascii ''d''),
     image = Some \<lparr>mimetype = ascii ''image/jpeg'', buffer = [0xFF, 0xD8]\<rparr>,
     name_before_image = True, description_before_image = True\<rparr>"

definition sample_cp :: cp where
  "sample_cp = \<lparr>cp_id = 167, name = ascii ''A'', description = ascii ''d'',
     imageUrl = ascii ''data:image/jpeg;base64,/9g='', votes = 0, createdAt = 500, updatedAt = 501\<rparr>"

definition sample_world :: world where
  "sample_world = \<lparr>db = Some 0, clients = 1, cps = [sample_cp], vote_logs = []\<rparr>"

definition sample_vote :: vote_req where
  "sample_vote = \<lparr>params_id = sample_id, req_ip = Some (ascii ''1.2.3.4''), x_forwarded_for = None\<rparr>"

definition env_at :: "int \<Rightarrow> env" where
  "env_at t = \<lparr>storeFailure = None, clock = (\<lambda>k. t + int k), tzOffset = - 480, insertedId = 167\<rparr>"

definition sample_vote_malformed :: vote_req where
  "sample_vote_malformed =
     \<lparr>params_id = ascii ''not-an-id'', req_ip = Some (ascii ''1.2.3.4''), x_forwarded_for = None\<rparr>"

definition sample_vote_unknown :: vote_req where
  "sample_vote_unknown =
     \<lparr>params_id = ascii ''0000000000000000000000A8'', req_ip = None,
      x_forwarded_for = Some (ascii ''5.6.7.8'')\<rparr>"

definition sample_create_text :: create_req where
  "sample_create_text = \<lparr>body_name = Some (ascii ''A''), body_description = Some (ascii ''d''),
     image = Some \<lparr>mimetype = ascii ''text/plain'', buffer = [0x68, 0x69]\<rparr>,
     name_before_image = True, description_before_image = True\<rparr>"

definition sample_create_blank :: create_req where
  "sample_create_blank = \<lparr>body_name = Some (ascii ''B''), body_description = Some (ascii ''  ''),
     image = Some \<lparr>mimetype = ascii ''image/png'', buffer = [0x89]\<rparr>,
     name_before_image = True, description_before_image = True\<rparr>"

text \<open>An environment whose driver generates the given \<open>_id\<close>.\<close>

definition env_new :: "int \<Rightarrow> ObjectId \<Rightarrow> env" where
  "env_new t i = \<lparr>storeFailure = None, clock = (\<lambda>k. t + int k), tzOffset = - 480, insertedId = i\<rparr>"

text \<open>A store of three items that the three sort keys order differently.\<close>

definition sample_cp_b :: cp where
  "sample_cp_b = \<lparr>cp_id = 168, name = ascii ''B'', description = ascii ''e'',
     imageUrl = ascii ''data:image/png;base64,iQ=='', votes = 3, createdAt = 900, updatedAt = 950\<rparr>"

definition sample_cp_ab :: cp where
  "sample_cp_ab = \<lparr>cp_id = 169, name = ascii ''AB'', description = ascii ''f'',
     imageUrl = ascii ''data:image/png;base64,iQ=='', votes = 2, createdAt = 700, updatedAt = 990\<rparr>"

definition sample_world3 :: world where
  "sample_world3 = \<lparr>db = Some 0, clients = 1, cps = [sample_cp, sample_cp_b, sample_cp_ab], vote_logs = []\<rparr>"

text \<open>An environment in which the store does not answer.\<close>

definition env_down :: env where
  "env_down = \<lparr>storeFailure = Some ''connect ECONNREFUSED'', clock = (\<lambda>k. 300 + int k),
     tzOffset = - 480, insertedId = 167\<rparr>"


section \<open>Facts about the model\<close>

subsection \<open>Strings, ids and dates\<close>

lemma trim_Nil: "trim [] = []"
  by (simp add: trim_def)

lemma trim_whitespace: "list_all isWhiteSpace s \<Longrightarrow> trim s = []"
proof -
  assume "list_all isWhiteSpace s"
  then have d: "dropWhile isWhiteSpace s = []" by (induction s) auto
  show ?thesis unfolding trim_def d by simp
qed

lemma trim_placeholder: "trim placeholder = placeholder"
  by (simp add: trim_def placeholder_def isWhiteSpace_def)

lemma ascii_small: "c \<in> set (ascii s) \<Longrightarrow> c < 256"
proof -
  assume "c \<in> set (ascii s)"
  then obtain x where "c = (of_char x :: nat)" by (auto simp: ascii_def)
  moreover have "(of_char x :: nat) mod 256 = of_char x" by simp
  moreover have "(of_char x :: nat) mod 256 < 256" by (rule mod_less_divisor) simp
  ultimately show "c < 256" by simp
qed

lemma startsWith_head: "startsWith s (p # ps) \<Longrightarrow> p \<in> set s"
  by (cases s) auto

lemma includes_head: "includes_str s (p # ps) \<Longrightarrow> p \<in> set s"
  by (induction s) (auto dest: startsWith_head)

lemma driver_message_plain: "\<not> includes_str (ascii m) imageFilePhrase"
proof
  assume "includes_str (ascii m) imageFilePhrase"
  then have "0x56FE \<in> set (ascii m)" unfolding imageFilePhrase_def by (rule includes_head)
  from ascii_small[OF this] show False by simp
qed

text \<open>The test vectors of RFC 4648 and one with the last two letters of the alphabet.\<close>

lemma base64_vectors:
  "base64 [] = ascii ''''"
  "base64 [0x66] = ascii ''Zg==''"
  "base64 [0x66, 0x6F] = ascii ''Zm8=''"
  "base64 [0x66, 0x6F, 0x6F] = ascii ''Zm9v''"
  "base64 [0x66, 0x6F, 0x6F, 0x62] = ascii ''Zm9vYg==''"
  "base64 [0xFB, 0xFF, 0xBE] = ascii ''+/++''"
  by (simp_all add: ascii_def b64char_def)

lemma base64_length: "length (base64 bs) = 4 * ((length bs + 2) div 3)"
proof (induction bs rule: base64.induct)
  case (4 a b c rest)
  have "(length rest + 5) div 3 = (length rest + 2) div 3 + 1" by presburger
  with 4 show ?case by (simp add: add.commute)
qed simp_all

lemma ObjectId_new_valid:
  "ObjectId_new s = Inr i \<longleftrightarrow> ObjectId_isValid s \<and> i = word_of_nat (hexnum s)"
  by (auto simp: ObjectId_new_def)

lemma toHexString_length: "length (toHexString i) = 24"
  by (simp add: toHexString_def)

lemma setHours0_le: "setHours0 off t \<le> t"
  by (simp add: setHours0_def msPerDay_def)

subsection \<open>The connection\<close>

lemma connect_collections:
  "cps (snd (connectToDatabase e w)) = cps w"
  "vote_logs (snd (connectToDatabase e w)) = vote_logs w"
  by (auto simp: connectToDatabase_def split: option.splits)

lemma connect_collectionsD:
  "connectToDatabase e w = (a, w1) \<Longrightarrow> cps w1 = cps w \<and> vote_logs w1 = vote_logs w"
  using connect_collections[of e w] by simp

lemma connect_up:
  assumes "storeFailure e = None"
  shows "\<exists>h. connectToDatabase e w = (Inr h, snd (connectToDatabase e w))"
  using assms by (auto simp: connectToDatabase_def driverCall_def split: option.splits)

lemma connect_down:
  assumes "storeFailure e = Some m" and "db w = None"
  shows "connectToDatabase e w = (Inl (JsError (ascii m)), w)"
  using assms by (simp add: connectToDatabase_def driverCall_def)

lemma connect_cached: "db w = Some h \<Longrightarrow> connectToDatabase e w = (Inr h, w)"
  by (simp add: connectToDatabase_def)

lemma connect_fresh:
  "db w = None \<Longrightarrow> storeFailure e = None \<Longrightarrow>
   connectToDatabase e w = (Inr (clients w), w\<lparr>db := Some (clients w), clients := Suc (clients w)\<rparr>)"
  by (simp add: connectToDatabase_def driverCall_def)

lemma connect_sets_db: "connectToDatabase e w = (Inr h, w1) \<Longrightarrow> db w1 = Some h"
  by (auto simp: connectToDatabase_def split: option.splits)

subsection \<open>Collection methods\<close>

lemma updateOne_absent:
  "i \<notin> cp_id ` set ds \<Longrightarrow> updateOne i f ds = (0, ds)"
  by (induction ds) auto

lemma updateOne_present:
  "find (\<lambda>d. cp_id d = i) ds = Some d \<Longrightarrow>
     \<exists>k<length ds. ds ! k = d \<and> (\<forall>j<k. cp_id (ds ! j) \<noteq> i) \<and> updateOne i f ds = (1, ds[k := f d])"
proof (induction ds)
  case Nil
  then show ?case by simp
next
  case (Cons a ds)
  show ?case
  proof (cases "cp_id a = i")
    case True
    with Cons.prems have "a = d" by simp
    with True show ?thesis by (intro exI[of _ 0]) simp
  next
    case False
    with Cons.prems have "find (\<lambda>d. cp_id d = i) ds = Some d" by simp
    from Cons.IH[OF this] obtain k where k: "k < length ds" "ds ! k = d"
      "\<forall>j<k. cp_id (ds ! j) \<noteq> i" "updateOne i f ds = (1, ds[k := f d])" by blast
    have "\<forall>j<Suc k. cp_id ((a # ds) ! j) \<noteq> i"
      using False k(3) by (auto simp: nth_Cons split: nat.splits)
    with k False show ?thesis by (intro exI[of _ "Suc k"]) simp
  qed
qed

lemma find_absent: "find (\<lambda>d. cp_id d = i) ds = None \<longleftrightarrow> i \<notin> cp_id ` set ds"
  by (auto simp: find_None_iff)

lemma find_present_id: "find (\<lambda>d. cp_id d = i) ds = Some d \<Longrightarrow> cp_id d = i \<and> d \<in> set ds"
  by (auto simp: find_Some_iff)

lemma find_after_update:
  "find (\<lambda>d. cp_id d = i) ds = Some d \<Longrightarrow> cp_id (f d) = i \<Longrightarrow>
   find (\<lambda>d. cp_id d = i) (snd (updateOne i f ds)) = Some (f d)"
  by (induction ds) (auto split: prod.splits)

lemma find_sort_mset: "mset (find_sort opt ds) = mset ds"
  by (cases opt) (simp_all add: find_sort_def)

lemma find_sort_votes: "sorted_wrt (\<lambda>a b. votes b \<le> votes a) (find_sort VotesDesc ds)"
proof -
  have "sorted (map (\<lambda>d. - votes d) (sort_key (\<lambda>d. - votes d) ds))" by (rule sorted_sort_key)
  then show ?thesis by (simp add: find_sort_def sorted_map)
qed

lemma find_sort_newest: "sorted_wrt (\<lambda>a b. createdAt b \<le> createdAt a) (find_sort CreatedAtDesc ds)"
proof -
  have "sorted (map (\<lambda>d. - createdAt d) (sort_key (\<lambda>d. - createdAt d) ds))" by (rule sorted_sort_key)
  then show ?thesis by (simp add: find_sort_def sorted_map)
qed

lemma find_sort_name:
  "sorted_wrt (\<lambda>a b. name a = name b \<or> (name a, name b) \<in> lexord {(u, v). u < v}) (find_sort NameAsc ds)"
proof -
  have "sorted (map name (sort_key name ds))" by (rule sorted_sort_key)
  then have "sorted_wrt (\<lambda>a b. name a \<le> name b) (find_sort NameAsc ds)"
    by (simp add: find_sort_def sorted_map)
  then show ?thesis
    by (rule sorted_wrt_mono_rel[rotated]) (auto simp: list_le_def list_less_def)
qed

subsection \<open>The vote route\<close>

text \<open>
  A vote has five outcomes: the id is malformed; the store does not answer; the voter has
  a log for the item today; no item has the id; the vote is counted.
\<close>

lemma vote_invalid:
  "\<not> ObjectId_isValid (params_id r) \<Longrightarrow> vote e r w = (Failure 400 InvalidIdFormat, w)"
  by (simp add: vote_def)

lemma vote_store_down:
  assumes "ObjectId_isValid (params_id r)" and "storeFailure e = Some m"
  shows "vote e r w = (Failure 500 VoteFailed, w)"
proof (cases "db w")
  case None
  from connect_down[OF assms(2) None] assms(1) show ?thesis by (simp add: vote_def)
next
  case (Some h)
  from connect_cached[OF Some, of e] assms show ?thesis
    by (simp add: vote_def ObjectId_new_def driverCall_def Let_def)
qed

lemma vote_duplicate:
  assumes "ObjectId_new (params_id r) = Inr i" and "storeFailure e = None"
    and "\<exists>l\<in>set (vote_logs w). cpId l = i \<and> voterIp l = voterIpOf r \<and>
            setHours0 (tzOffset e) (clock e 0) \<le> votedAt l"
  shows "vote e r w = (Failure 400 AlreadyVotedToday, snd (connectToDatabase e w))"
proof -
  obtain h where h: "connectToDatabase e w = (Inr h, snd (connectToDatabase e w))"
    using connect_up[OF assms(2)] by blast
  have v: "ObjectId_isValid (params_id r)" using assms(1) by (simp add: ObjectId_new_valid)
  have "find (\<lambda>l. cpId l = i \<and> voterIp l = voterIpOf r \<and>
            setHours0 (tzOffset e) (clock e 0) \<le> votedAt l) (vote_logs (snd (connectToDatabase e w))) \<noteq> None"
    using assms(3) by (auto simp: find_None_iff connect_collections)
  then obtain l where "find (\<lambda>l. cpId l = i \<and> voterIp l = voterIpOf r \<and>
            setHours0 (tzOffset e) (clock e 0) \<le> votedAt l) (vote_logs (snd (connectToDatabase e w))) = Some l"
    by blast
  then show ?thesis using v assms(1,2)
    by (subst vote_def, subst h) (simp add: Let_def driverCall_def)
qed

lemma vote_not_found:
  assumes "ObjectId_new (params_id r) = Inr i" and "storeFailure e = None"
    and "\<not> (\<exists>l\<in>set (vote_logs w). cpId l = i \<and> voterIp l = voterIpOf r \<and>
            setHours0 (tzOffset e) (clock e 0) \<le> votedAt l)"
    and "i \<notin> cp_id ` set (cps w)"
  shows "vote e r w = (Failure 404 CpNotFound, snd (connectToDatabase e w))"
proof -
  obtain h where h: "connectToDatabase e w = (Inr h, snd (connectToDatabase e w))"
    using connect_up[OF assms(2)] by blast
  have v: "ObjectId_isValid (params_id r)" using assms(1) by (simp add: ObjectId_new_valid)
  have f: "find (\<lambda>l. cpId l = i \<and> voterIp l = voterIpOf r \<and>
            setHours0 (tzOffset e) (clock e 0) \<le> votedAt l) (vote_logs (snd (connectToDatabase e w))) = None"
    using assms(3) by (simp add: find_None_iff connect_collections)
  have u: "updateOne i g (cps (snd (connectToDatabase e w))) = (0, cps (snd (connectToDatabase e w)))" for g
    using assms(4) by (simp add: updateOne_absent connect_collections)
  show ?thesis using v assms(1,2) f u
    by (subst vote_def, subst h) (simp add: Let_def driverCall_def)
qed

lemma vote_success:
  assumes "ObjectId_new (params_id r) = Inr i" and "storeFailure e = None"
    and "\<not> (\<exists>l\<in>set (vote_logs w). cpId l = i \<and> voterIp l = voterIpOf r \<and>
            setHours0 (tzOffset e) (clock e 0) \<le> votedAt l)"
    and "find (\<lambda>d. cp_id d = i) (cps w) = Some d"
  shows "\<exists>k<length (cps w). cps w ! k = d \<and> (\<forall>j<k. cp_id (cps w ! j) \<noteq> i) \<and>
           vote e r w = (VoteOk (votes d + 1),
             (snd (connectToDatabase e w))
               \<lparr>cps := (cps w)[k := d\<lparr>votes := votes d + 1, updatedAt := clock e 1\<rparr>],
                vote_logs := vote_logs w @ [\<lparr>cpId = i, voterIp = voterIpOf r, votedAt = clock e 2\<rparr>]\<rparr>)"
proof -
  let ?w1 = "snd (connectToDatabase e w)"
  let ?g = "\<lambda>d. d\<lparr>votes := votes d + 1, updatedAt := clock e 1\<rparr>"
  obtain h where h: "connectToDatabase e w = (Inr h, snd (connectToDatabase e w))"
    using connect_up[OF assms(2)] by blast
  have v: "ObjectId_isValid (params_id r)" using assms(1) by (simp add: ObjectId_new_valid)
  have f: "find (\<lambda>l. cpId l = i \<and> voterIp l = voterIpOf r \<and>
            setHours0 (tzOffset e) (clock e 0) \<le> votedAt l) (vote_logs ?w1) = None"
    using assms(3) by (simp add: find_None_iff connect_collections)
  from updateOne_present[OF assms(4), of ?g] obtain k where k: "k < length (cps w)" "cps w ! k = d"
    "\<forall>j<k. cp_id (cps w ! j) \<noteq> i" "updateOne i ?g (cps w) = (1, (cps w)[k := ?g d])" by blast
  have "cp_id (?g d) = i" using find_present_id[OF assms(4)] by simp
  from find_after_update[where f = ?g, OF assms(4) this]
  have fu: "find (\<lambda>d. cp_id d = i) ((cps w)[k := ?g d]) = Some (?g d)" using k(4) by simp
  have "vote e r w = (VoteOk (votes d + 1),
             ?w1\<lparr>cps := (cps w)[k := ?g d],
                vote_logs := vote_logs w @ [\<lparr>cpId = i, voterIp = voterIpOf r, votedAt = clock e 2\<rparr>]\<rparr>)"
    using v assms(1,2) f k(4) fu
    by (subst vote_def, subst h) (simp add: Let_def driverCall_def connect_collections)
  with k show ?thesis by blast
qed

lemma vote_ok_iff:
  assumes "ObjectId_new (params_id r) = Inr i" and "storeFailure e = None"
  shows "(\<exists>n. fst (vote e r w) = VoteOk n) \<longleftrightarrow>
      \<not> (\<exists>l\<in>set (vote_logs w). cpId l = i \<and> voterIp l = voterIpOf r \<and>
            setHours0 (tzOffset e) (clock e 0) \<le> votedAt l) \<and> i \<in> cp_id ` set (cps w)"
proof (cases "\<exists>l\<in>set (vote_logs w). cpId l = i \<and> voterIp l = voterIpOf r \<and>
            setHours0 (tzOffset e) (clock e 0) \<le> votedAt l")
  case True
  from vote_duplicate[OF assms True] show ?thesis using True by simp
next
  case False
  show ?thesis
  proof (cases "i \<in> cp_id ` set (cps w)")
    case absent: False
    from vote_not_found[OF assms False absent] show ?thesis using absent by simp
  next
    case True
    then obtain d where "find (\<lambda>d. cp_id d = i) (cps w) = Some d"
      using find_absent[of i "cps w"] by fastforce
    from vote_success[OF assms False this] show ?thesis using False True by auto
  qed
qed

lemma vote_ok_requires:
  assumes "fst (vote e r w) = VoteOk n"
  shows "\<exists>i. ObjectId_new (params_id r) = Inr i \<and> storeFailure e = None"
proof -
  have v: "ObjectId_isValid (params_id r)"
    using assms vote_invalid[of r e w] by (cases "ObjectId_isValid (params_id r)") auto
  have "storeFailure e = None"
    using assms vote_store_down[OF v, of e _ w] by (cases "storeFailure e") auto
  with v show ?thesis by (simp add: ObjectId_new_def)
qed

lemma vote_success_world:
  assumes "ObjectId_new (params_id r) = Inr i" and "storeFailure e = None"
    and "fst (vote e r w) = VoteOk n"
  shows "vote_logs (snd (vote e r w)) =
           vote_logs w @ [\<lparr>cpId = i, voterIp = voterIpOf r, votedAt = clock e 2\<rparr>]"
    and "cp_id ` set (cps (snd (vote e r w))) = cp_id ` set (cps w)"
proof -
  from vote_ok_iff[OF assms(1,2), of w] assms(3)
  have nd: "\<not> (\<exists>l\<in>set (vote_logs w). cpId l = i \<and> voterIp l = voterIpOf r \<and>
            setHours0 (tzOffset e) (clock e 0) \<le> votedAt l)" and "i \<in> cp_id ` set (cps w)"
    by blast+
  then obtain d where d: "find (\<lambda>d. cp_id d = i) (cps w) = Some d"
    using find_absent[of i "cps w"] by fastforce
  from vote_success[OF assms(1,2) nd d] obtain k where k: "k < length (cps w)" "cps w ! k = d"
    "vote e r w = (VoteOk (votes d + 1),
             (snd (connectToDatabase e w))
               \<lparr>cps := (cps w)[k := d\<lparr>votes := votes d + 1, updatedAt := clock e 1\<rparr>],
                vote_logs := vote_logs w @ [\<lparr>cpId = i, voterIp = voterIpOf r, votedAt = clock e 2\<rparr>]\<rparr>)"
    by blast
  show "vote_logs (snd (vote e r w)) =
           vote_logs w @ [\<lparr>cpId = i, voterIp = voterIpOf r, votedAt = clock e 2\<rparr>]"
    using k(3) by simp
  have "map cp_id ((cps w)[k := d\<lparr>votes := votes d + 1, updatedAt := clock e 1\<rparr>]) = map cp_id (cps w)"
    using k(1,2) by (simp add: map_update list_update_same_conv)
  then have "set (map cp_id (cps (snd (vote e r w)))) = set (map cp_id (cps w))"
    using k(3) by simp
  then show "cp_id ` set (cps (snd (vote e r w))) = cp_id ` set (cps w)" by simp
qed

lemma vote_unchanged_unless_ok:
  assumes "\<forall>n. fst (vote e r w) \<noteq> VoteOk n"
  shows "cps (snd (vote e r w)) = cps w \<and> vote_logs (snd (vote e r w)) = vote_logs w"
proof (cases "ObjectId_isValid (params_id r)")
  case False
  then show ?thesis by (simp add: vote_invalid)
next
  case True
  then obtain i where i: "ObjectId_new (params_id r) = Inr i" by (simp add: ObjectId_new_def)
  show ?thesis
  proof (cases "storeFailure e")
    case (Some m)
    from vote_store_down[OF True Some] show ?thesis by simp
  next
    case None
    show ?thesis
    proof (cases "\<exists>l\<in>set (vote_logs w). cpId l = i \<and> voterIp l = voterIpOf r \<and>
            setHours0 (tzOffset e) (clock e 0) \<le> votedAt l")
      case True
      from vote_duplicate[OF i None True] show ?thesis by (simp add: connect_collections)
    next
      case False
      with vote_ok_iff[OF i None, of w] assms have "i \<notin> cp_id ` set (cps w)" by blast
      from vote_not_found[OF i None False this] show ?thesis by (simp add: connect_collections)
    qed
  qed
qed

lemma vote_collections:
  "(cps (snd (vote e r w)) = cps w \<and> vote_logs (snd (vote e r w)) = vote_logs w) \<or>
   (\<exists>k i. k < length (cps w) \<and> cp_id (cps w ! k) = i \<and>
      cps (snd (vote e r w)) = (cps w)[k := (cps w ! k)\<lparr>votes := votes (cps w ! k) + 1, updatedAt := clock e 1\<rparr>] \<and>
      vote_logs (snd (vote e r w)) = vote_logs w @ [\<lparr>cpId = i, voterIp = voterIpOf r, votedAt = clock e 2\<rparr>])"
proof (cases "\<exists>n. fst (vote e r w) = VoteOk n")
  case False
  then show ?thesis using vote_unchanged_unless_ok[of e r w] by simp
next
  case True
  then obtain n where ok: "fst (vote e r w) = VoteOk n" by blast
  from vote_ok_requires[OF ok] obtain j where j: "ObjectId_new (params_id r) = Inr j"
    and up: "storeFailure e = None" by blast
  from vote_ok_iff[OF j up, of w] ok
  have nd: "\<not> (\<exists>l\<in>set (vote_logs w). cpId l = j \<and> voterIp l = voterIpOf r \<and>
          setHours0 (tzOffset e) (clock e 0) \<le> votedAt l)" and "j \<in> cp_id ` set (cps w)"
    by blast+
  then obtain c where c: "find (\<lambda>d. cp_id d = j) (cps w) = Some c"
    using find_absent[of j "cps w"] by fastforce
  from vote_success[OF j up nd c] obtain k where k: "k < length (cps w)" "cps w ! k = c"
    "vote e r w = (VoteOk (votes c + 1),
             (snd (connectToDatabase e w))
               \<lparr>cps := (cps w)[k := c\<lparr>votes := votes c + 1, updatedAt := clock e 1\<rparr>],
                vote_logs := vote_logs w @ [\<lparr>cpId = j, voterIp = voterIpOf r, votedAt = clock e 2\<rparr>]\<rparr>)"
    by blast
  have "cp_id c = j" using find_present_id[OF c] by simp
  with k show ?thesis by (intro disjI2 exI[of _ k] exI[of _ j]) simp
qed

lemma vote_cached:
  "db w = Some h \<Longrightarrow> db (snd (vote e r w)) = Some h \<and> clients (snd (vote e r w)) = clients w"
  by (simp add: vote_def connect_cached Let_def split: option.splits sum.splits prod.splits)

lemma vote_down:
  assumes "db w = None" and "storeFailure e = Some m"
  shows "snd (vote e r w) = w"
    and "ObjectId_isValid (params_id r) \<Longrightarrow> fst (vote e r w) = Failure 500 VoteFailed"
  using connect_down[OF assms(2,1)] by (auto simp: vote_def Let_def)

subsection \<open>The creation route\<close>

lemma createCatch_driver: "createCatch (JsError (ascii m)) = Failure 500 CreateFailed"
  by (simp add: createCatch_def driver_message_plain)

lemma utf8_length_Nil: "utf8_length [] = 0"
  by (simp add: utf8_length_def)

lemma overlong_iff:
  "overlong x \<longleftrightarrow> (\<exists>s. x = Some s \<and> fieldSizeLimit < utf8_length s)"
  by (simp add: overlong_def split: option.splits)

lemma upload_single_accept:
  "image r = Some f \<Longrightarrow> startsWith (mimetype f) (ascii ''image/'') \<Longrightarrow>
   length (buffer f) \<le> fileSizeLimit \<Longrightarrow>
   \<not> overlong (body_name r) \<Longrightarrow> \<not> overlong (body_description r) \<Longrightarrow>
   upload_single r = Inr (Some f)"
  by (simp add: upload_single_def)

lemma upload_single_accepted:
  "upload_single r = Inr u \<Longrightarrow>
   image r = u \<and> \<not> overlong (body_name r) \<and> \<not> overlong (body_description r)"
  by (auto simp: upload_single_def split: option.splits if_splits)

lemma createCP_ok:
  assumes "upload_single r = Inr (Some f)" and "body_name r = Some nm" and "trim nm \<noteq> []"
    and "storeFailure e = None" and "insertedId e \<notin> cp_id ` set (cps w)"
  shows "createCP e r w =
    (Created (insertedId e)
       \<lparr>cp_id = insertedId e, name = trim nm,
        description = trim (or_else (body_description r) placeholder),
        imageUrl = ascii ''data:'' @ mimetype f @ ascii '';base64,'' @ base64 (buffer f),
        votes = 0, createdAt = clock e 0, updatedAt = clock e 1\<rparr>,
     (snd (connectToDatabase e w))
       \<lparr>cps := cps w @
          [\<lparr>cp_id = insertedId e, name = trim nm,
            description = trim (or_else (body_description r) placeholder),
            imageUrl = ascii ''data:'' @ mimetype f @ ascii '';base64,'' @ base64 (buffer f),
            votes = 0, createdAt = clock e 0, updatedAt = clock e 1\<rparr>]\<rparr>)"
proof -
  obtain h where h: "connectToDatabase e w = (Inr h, snd (connectToDatabase e w))"
    using connect_up[OF assms(4)] by blast
  have nm: "nm \<noteq> []" using assms(3) by (auto simp: trim_Nil)
  have fresh: "insertedId e \<notin> cp_id ` set (cps (snd (connectToDatabase e w)))"
    using assms(5) by (simp add: connect_collections)
  show ?thesis using assms(1,2,3,4) nm fresh
    by (subst createCP_def, subst h)
       (simp add: Let_def driverCall_def insertOne_def connect_collections)
qed

lemma createCP_collections:
  "vote_logs (snd (createCP e r w)) = vote_logs w \<and>
   (cps (snd (createCP e r w)) = cps w \<or>
    (\<exists>c. cps (snd (createCP e r w)) = cps w @ [c] \<and> votes c = 0 \<and>
         fst (createCP e r w) = Created (cp_id c) c))"
  by (auto simp: createCP_def Let_def insertOne_def
      split: prod.splits sum.splits option.splits if_splits dest: connect_collectionsD)

lemma createCP_created:
  "fst (createCP e r w) = Created i c \<Longrightarrow> votes c = 0 \<and> i = cp_id c \<and> cps (snd (createCP e r w)) = cps w @ [c]"
  by (auto simp: createCP_def Let_def insertOne_def createCatch_def errorMiddleware_def
      split: prod.splits sum.splits option.splits if_splits js_error.splits multer_code.splits dest: connect_collectionsD)

lemma createCP_rejected_upload:
  "upload_single r = Inl err \<Longrightarrow> createCP e r w = (errorMiddleware err, w)"
  by (simp add: createCP_def)

lemma createCP_non_image:
  "image r = Some f \<Longrightarrow> \<not> startsWith (mimetype f) (ascii ''image/'') \<Longrightarrow>
   createCP e r w = (Failure 500 ServerError, w)"
  by (simp add: createCP_def upload_single_def errorMiddleware_def)

lemma createCP_too_large:
  "image r = Some f \<Longrightarrow> startsWith (mimetype f) (ascii ''image/'') \<Longrightarrow>
   fileSizeLimit < length (buffer f) \<Longrightarrow>
   \<not> (name_before_image r \<and> overlong (body_name r)) \<Longrightarrow>
   \<not> (description_before_image r \<and> overlong (body_description r)) \<Longrightarrow>
   createCP e r w = (Failure 400 FileTooLarge, w)"
  by (simp add: createCP_def upload_single_def errorMiddleware_def)

lemma createCP_field_too_long:
  "image r = Some f \<Longrightarrow> startsWith (mimetype f) (ascii ''image/'') \<Longrightarrow>
   length (buffer f) \<le> fileSizeLimit \<Longrightarrow>
   overlong (body_name r) \<or> overlong (body_description r) \<Longrightarrow>
   createCP e r w = (Failure 500 ServerError, w)"
  by (auto simp: createCP_def upload_single_def errorMiddleware_def)

lemma createCP_status_400_iff:
  "status (fst (createCP e r w)) = 400 \<longleftrightarrow>
     upload_single r = Inl (MulterError LIMIT_FILE_SIZE) \<or>
     upload_single r = Inr None \<or>
     (\<exists>f. upload_single r = Inr (Some f) \<and>
        (body_name r = None \<or> (\<exists>nm. body_name r = Some nm \<and> trim nm = [])))"
proof (cases "upload_single r")
  case (Inl err)
  then show ?thesis
    by (auto simp: createCP_def errorMiddleware_def split: js_error.splits multer_code.splits)
next
  case (Inr u)
  then show ?thesis
    by (auto simp: createCP_def Let_def createCatch_driver driverCall_def
        connectToDatabase_def insertOne_def trim_Nil
        split: option.splits sum.splits prod.splits if_splits)
qed

lemma createCP_cached:
  "db w = Some h \<Longrightarrow> db (snd (createCP e r w)) = Some h \<and> clients (snd (createCP e r w)) = clients w"
  by (simp add: createCP_def connect_cached Let_def split: option.splits sum.splits)

lemma createCP_down:
  assumes "db w = None" and "storeFailure e = Some m"
  shows "snd (createCP e r w) = w"
    and "upload_single r = Inr (Some f) \<Longrightarrow> body_name r = Some nm \<Longrightarrow> trim nm \<noteq> [] \<Longrightarrow>
         fst (createCP e r w) = Failure 500 CreateFailed"
  using connect_down[OF assms(2,1)]
  by (auto simp: createCP_def Let_def createCatch_driver trim_Nil split: option.splits sum.splits)

subsection \<open>The health, listing and detail routes\<close>

lemma healthCheck_collections:
  "cps (snd (healthCheck e w)) = cps w \<and> vote_logs (snd (healthCheck e w)) = vote_logs w"
  by (auto simp: healthCheck_def split: prod.splits sum.splits option.splits dest: connect_collectionsD)

lemma healthCheck_up:
  assumes "storeFailure e = None"
  shows "fst (healthCheck e w) = HealthOk (clock e 0)"
proof -
  obtain h where h: "connectToDatabase e w = (Inr h, snd (connectToDatabase e w))"
    using connect_up[OF assms] by blast
  show ?thesis using assms by (subst healthCheck_def, subst h) (simp add: driverCall_def)
qed

lemma healthCheck_cached:
  "db w = Some h \<Longrightarrow> snd (healthCheck e w) = w"
  by (simp add: healthCheck_def connect_cached split: option.splits)

lemma healthCheck_down:
  assumes "db w = None" and "storeFailure e = Some m"
  shows "healthCheck e w = (Failure 500 DatabaseDisconnected, w)"
  using connect_down[OF assms(2,1)] by (simp add: healthCheck_def)

lemma sortOption_cases:
  "sortOption (Some (ascii ''newest'')) = CreatedAtDesc"
  "sortOption (Some (ascii ''name'')) = NameAsc"
  "q \<noteq> Some (ascii ''newest'') \<Longrightarrow> q \<noteq> Some (ascii ''name'') \<Longrightarrow> sortOption q = VotesDesc"
  by (auto simp: sortOption_def ascii_def split: option.splits)

lemma getCPs_collections:
  "cps (snd (getCPs e q w)) = cps w \<and> vote_logs (snd (getCPs e q w)) = vote_logs w"
  by (auto simp: getCPs_def split: prod.splits sum.splits option.splits dest: connect_collectionsD)

lemma getCPs_up:
  assumes "storeFailure e = None"
  shows "fst (getCPs e q w) = CpList (find_sort (sortOption q) (cps w))"
proof -
  obtain h where h: "connectToDatabase e w = (Inr h, snd (connectToDatabase e w))"
    using connect_up[OF assms] by blast
  show ?thesis using assms
    by (subst getCPs_def, subst h) (simp add: driverCall_def connect_collections)
qed

lemma getCPs_cached:
  "db w = Some h \<Longrightarrow> snd (getCPs e q w) = w"
  by (simp add: getCPs_def connect_cached split: option.splits)

lemma getCPs_down:
  assumes "db w = None" and "storeFailure e = Some m"
  shows "getCPs e q w = (Failure 500 FetchFailed, w)"
  using connect_down[OF assms(2,1)] by (simp add: getCPs_def)

lemma getCPDetail_collections:
  "cps (snd (getCPDetail e i w)) = cps w \<and> vote_logs (snd (getCPDetail e i w)) = vote_logs w"
  by (auto simp: getCPDetail_def split: prod.splits sum.splits option.splits dest: connect_collectionsD)

lemma getCPDetail_cached:
  "db w = Some h \<Longrightarrow> snd (getCPDetail e i w) = w"
  by (simp add: getCPDetail_def connect_cached split: option.splits sum.splits)

lemma getCPDetail_down:
  assumes "db w = None" and "storeFailure e = Some m"
  shows "snd (getCPDetail e i w) = w"
    and "ObjectId_isValid i \<Longrightarrow> fst (getCPDetail e i w) = Failure 500 FetchFailed"
  using connect_down[OF assms(2,1)] by (auto simp: getCPDetail_def)

subsection \<open>Requests in sequence and reachable worlds\<close>

lemma handle_collections:
  "(cps (snd (handle e rq w)) = cps w \<and> vote_logs (snd (handle e rq w)) = vote_logs w) \<or>
   (\<exists>cr c. rq = CreateCP cr \<and> cps (snd (handle e rq w)) = cps w @ [c] \<and> votes c = 0) \<or>
   (\<exists>vr k. rq = Vote vr \<and> k < length (cps w) \<and>
      cps (snd (handle e rq w)) =
        (cps w)[k := (cps w ! k)\<lparr>votes := votes (cps w ! k) + 1, updatedAt := clock e 1\<rparr>])"
proof (cases rq)
  case Health
  then show ?thesis using healthCheck_collections[of e w] by simp
next
  case (GetCPs q)
  then show ?thesis using getCPs_collections[of e q w] by simp
next
  case (CreateCP cr)
  then show ?thesis using createCP_collections[of e cr w] by auto
next
  case (Vote vr)
  then show ?thesis using vote_collections[of e vr w] by auto
next
  case (GetCPDetail i)
  then show ?thesis using getCPDetail_collections[of e i w] by simp
qed

lemma handle_votes_step:
  "length (cps w) \<le> length (cps (snd (handle e rq w))) \<and>
   (\<forall>k<length (cps w).
      cp_id (cps (snd (handle e rq w)) ! k) = cp_id (cps w ! k) \<and>
      (votes (cps (snd (handle e rq w)) ! k) = votes (cps w ! k) \<or>
       (\<exists>vr. rq = Vote vr) \<and> votes (cps (snd (handle e rq w)) ! k) = votes (cps w ! k) + 1))"
  using handle_collections[of e rq w]
  by (auto simp: nth_append nth_list_update split: if_splits)

lemma handle_nonneg:
  assumes "\<forall>c\<in>set (cps w). 0 \<le> votes c"
  shows "\<forall>c\<in>set (cps (snd (handle e rq w))). 0 \<le> votes c"
proof
  fix c assume "c \<in> set (cps (snd (handle e rq w)))"
  then obtain k where k: "k < length (cps (snd (handle e rq w)))" "c = cps (snd (handle e rq w)) ! k"
    by (auto simp: in_set_conv_nth)
  from handle_collections[of e rq w] show "0 \<le> votes c"
  proof (elim disjE exE conjE)
    assume "cps (snd (handle e rq w)) = cps w"
    then show ?thesis using assms k by simp
  next
    fix cr d assume "cps (snd (handle e rq w)) = cps w @ [d]" "votes d = 0"
    then show ?thesis using assms k by (auto simp: nth_append)
  next
    fix vr j assume j: "j < length (cps w)" "cps (snd (handle e rq w)) =
        (cps w)[j := (cps w ! j)\<lparr>votes := votes (cps w ! j) + 1, updatedAt := clock e 1\<rparr>]"
    have "0 \<le> votes (cps w ! j)" using assms j(1) by simp
    moreover have "k \<noteq> j \<Longrightarrow> 0 \<le> votes (cps w ! k)" using assms k j(2) by simp
    ultimately show ?thesis using k j by (cases "k = j") (simp_all add: nth_list_update)
  qed
qed

lemma handle_logs_refer:
  assumes "cpId ` set (vote_logs w) \<subseteq> cp_id ` set (cps w)"
  shows "cpId ` set (vote_logs (snd (handle e rq w))) \<subseteq> cp_id ` set (cps (snd (handle e rq w)))"
proof (cases rq)
  case Health
  then show ?thesis using assms healthCheck_collections[of e w] by simp
next
  case (GetCPs q)
  then show ?thesis using assms getCPs_collections[of e q w] by simp
next
  case (CreateCP r)
  then show ?thesis using assms createCP_collections[of e r w] by auto
next
  case (Vote r)
  from vote_collections[of e r w] show ?thesis
  proof
    assume "cps (snd (vote e r w)) = cps w \<and> vote_logs (snd (vote e r w)) = vote_logs w"
    then show ?thesis using assms Vote by simp
  next
    assume "\<exists>k i. k < length (cps w) \<and> cp_id (cps w ! k) = i \<and>
      cps (snd (vote e r w)) = (cps w)[k := (cps w ! k)\<lparr>votes := votes (cps w ! k) + 1, updatedAt := clock e 1\<rparr>] \<and>
      vote_logs (snd (vote e r w)) = vote_logs w @ [\<lparr>cpId = i, voterIp = voterIpOf r, votedAt = clock e 2\<rparr>]"
    then obtain k i where k: "k < length (cps w)" "cp_id (cps w ! k) = i"
      "cps (snd (vote e r w)) = (cps w)[k := (cps w ! k)\<lparr>votes := votes (cps w ! k) + 1, updatedAt := clock e 1\<rparr>]"
      "vote_logs (snd (vote e r w)) = vote_logs w @ [\<lparr>cpId = i, voterIp = voterIpOf r, votedAt = clock e 2\<rparr>]"
      by blast
    have "map cp_id (cps (snd (vote e r w))) = map cp_id (cps w)"
      using k(1,3) by (simp add: map_update list_update_same_conv)
    then have ids: "cp_id ` set (cps (snd (vote e r w))) = cp_id ` set (cps w)"
      by (metis list.set_map)
    have "i \<in> cp_id ` set (cps w)" using k(1,2) by (metis imageI nth_mem)
    then show ?thesis using assms Vote ids k(4) by auto
  qed
next
  case (GetCPDetail i)
  then show ?thesis using assms getCPDetail_collections[of e i w] by simp
qed

lemma handle_cached:
  "db w = Some h \<Longrightarrow> db (snd (handle e rq w)) = Some h \<and> clients (snd (handle e rq w)) = clients w"
  by (cases rq)
     (simp_all add: healthCheck_cached getCPs_cached getCPDetail_cached createCP_cached vote_cached)

lemma handle_down:
  assumes "db w = None" and "storeFailure e = Some m"
  shows "snd (handle e rq w) = w"
  by (cases rq)
     (simp_all add: healthCheck_down[OF assms] getCPs_down[OF assms] createCP_down(1)[OF assms]
        vote_down(1)[OF assms] getCPDetail_down(1)[OF assms])

lemma run_cached:
  "db w = Some h \<Longrightarrow> db (run es w) = Some h \<and> clients (run es w) = clients w"
proof (induction es arbitrary: w)
  case Nil
  then show ?case by simp
next
  case (Cons a es)
  obtain e rq where a: "a = (e, rq)" by (cases a)
  from handle_cached[OF Cons.prems, of e rq]
  have "db (snd (handle e rq w)) = Some h" and c: "clients (snd (handle e rq w)) = clients w"
    by simp_all
  from Cons.IH[OF this(1)] c a show ?case by simp
qed

lemma reachable_logs_refer:
  "reachable w \<Longrightarrow> cpId ` set (vote_logs w) \<subseteq> cp_id ` set (cps w)"
proof (induction rule: reachable.induct)
  case reach_initial
  then show ?case by (simp add: initial_def)
next
  case (reach_request w e rq)
  from handle_logs_refer[OF reach_request.IH] show ?case .
next
  case (reach_restart w)
  then show ?case by simp
qed

lemma reachable_nonneg: "reachable w \<Longrightarrow> \<forall>c\<in>set (cps w). 0 \<le> votes c"
proof (induction rule: reachable.induct)
  case reach_initial
  then show ?case by (simp add: initial_def)
next
  case (reach_request w e rq)
  from handle_nonneg[OF reach_request.IH] show ?case .
next
  case (reach_restart w)
  then show ?case by simp
qed

subsection \<open>The sample data, evaluated\<close>

lemmas eval_defs = ascii_def ObjectId_isValid_def ObjectId_new_def hexval_def hexnum_def
  connectToDatabase_def driverCall_def voterIpOf_def or_else_def setHours0_def msPerDay_def

lemma sample_id_new: "ObjectId_new sample_id = Inr 167"
  by (simp add: sample_id_def ObjectId_new_def ObjectId_isValid_def hexnum_def hexval_def ascii_def)

lemma sample_unknown_new: "ObjectId_new (params_id sample_vote_unknown) = Inr 168"
  by (simp add: sample_vote_unknown_def eval_defs)

lemma sample_world_created: "createCP (env_at 500) sample_create initial = (Created 167 sample_cp, sample_world)"
  by (simp add: createCP_def upload_single_def overlong_def utf8_length_def utf8_bytes_def
      fieldSizeLimit_def fileSizeLimit_def trim_def isWhiteSpace_def insertOne_def
      b64char_def env_at_def sample_create_def sample_cp_def sample_world_def initial_def eval_defs Let_def)

lemma sample_reachable: "reachable sample_world"
  using reach_request[OF reach_initial, of "env_at 500" "CreateCP sample_create"]
  by (simp add: sample_world_created)

lemma sample_vote_ok: "fst (vote (env_at 1000) sample_vote sample_world) = VoteOk 1"
  by (simp add: vote_def env_at_def sample_vote_def sample_world_def sample_cp_def sample_id_def
      eval_defs Let_def)

lemma sample_vote_world:
  "snd (vote (env_at 1000) sample_vote sample_world) =
     \<lparr>db = Some 0, clients = 1, cps = [sample_cp\<lparr>votes := 1, updatedAt := 1001\<rparr>],
      vote_logs = [\<lparr>cpId = 167, voterIp = ascii ''1.2.3.4'', votedAt = 1002\<rparr>]\<rparr>"
  by (simp add: vote_def env_at_def sample_vote_def sample_world_def sample_cp_def sample_id_def
      eval_defs Let_def)

lemma sample_malformed: "fst (vote (env_at 1000) sample_vote_malformed sample_world) = Failure 400 InvalidIdFormat"
  by (simp add: vote_def sample_vote_malformed_def eval_defs)

lemma sample_repeat:
  "fst (vote (env_at 2000) sample_vote (snd (vote (env_at 1000) sample_vote sample_world)))
     = Failure 400 AlreadyVotedToday"
  by (subst sample_vote_world)
    (simp add: vote_def env_at_def sample_vote_def sample_id_def eval_defs Let_def)

lemma sample_unknown: "fst (vote (env_at 1000) sample_vote_unknown sample_world) = Failure 404 CpNotFound"
  by (simp add: vote_def env_at_def sample_vote_unknown_def sample_world_def sample_cp_def eval_defs Let_def)

lemma sample_list_votes:
  "fst (getCPs (env_at 1000) None sample_world3) = CpList [sample_cp_b, sample_cp_ab, sample_cp]"
  by (simp add: getCPs_def connectToDatabase_def driverCall_def env_at_def sample_world3_def
      sortOption_def find_sort_def ascii_def sample_cp_def sample_cp_b_def sample_cp_ab_def)

lemma sample_list_name:
  "fst (getCPs (env_at 1000) (Some (ascii ''name'')) sample_world3) = CpList [sample_cp, sample_cp_ab, sample_cp_b]"
  by (simp add: getCPs_def connectToDatabase_def driverCall_def env_at_def sample_world3_def
      sortOption_def find_sort_def ascii_def sample_cp_def sample_cp_b_def sample_cp_ab_def)

lemma sample_list_newest:
  "fst (getCPs (env_at 1000) (Some (ascii ''newest'')) sample_world3) = CpList [sample_cp_b, sample_cp_ab, sample_cp]"
  by (simp add: getCPs_def connectToDatabase_def driverCall_def env_at_def sample_world3_def
      sortOption_def find_sort_def ascii_def sample_cp_def sample_cp_b_def sample_cp_ab_def)

lemma sample_id_hex: "toHexString 167 = sample_id"
  by (simp add: toHexString_def sample_id_def ascii_def hexdigit_def upt_rec drop_bit_eq_div)

lemma sample_midnight: "setHours0 (- 480) 1000 = - 28800000" "setHours0 (- 480) 86401000 = 57600000"
  by (simp_all add: setHours0_def msPerDay_def)

section \<open>The claims\<close>

text \<open>
  C1. A vote on a well-formed id, while the store answers, is refused as a duplicate
  (status 400, "already voted today") exactly when a vote log exists for the same item
  and the same voter IP whose \<open>votedAt\<close> is at or after the local midnight before the
  call. In particular, after a vote that succeeded, a vote for the same item from the
  same IP on the same calendar day is refused, and one on the following calendar day
  succeeds (the first vote's log being written before that day begins).
\<close>

theorem vote_duplicate_iff:
  assumes "ObjectId_new (params_id r) = Inr i" and "storeFailure e = None"
  shows "(fst (vote e r w) = Failure 400 AlreadyVotedToday \<longleftrightarrow>
            (\<exists>l\<in>set (vote_logs w). cpId l = i \<and> voterIp l = voterIpOf r \<and>
               setHours0 (tzOffset e) (clock e 0) \<le> votedAt l)) \<and>
         (\<forall>e2 r2. (\<exists>n. fst (vote e r w) = VoteOk n) \<and> clock e 0 \<le> clock e 2 \<and>
            storeFailure e2 = None \<and> ObjectId_new (params_id r2) = Inr i \<and>
            voterIpOf r2 = voterIpOf r \<and>
            setHours0 (tzOffset e2) (clock e2 0) = setHours0 (tzOffset e) (clock e 0) \<longrightarrow>
            fst (vote e2 r2 (snd (vote e r w))) = Failure 400 AlreadyVotedToday) \<and>
         (\<forall>e2 r2. (\<exists>n. fst (vote e r w) = VoteOk n) \<and>
            clock e 2 < setHours0 (tzOffset e) (clock e 0) + msPerDay \<and>
            storeFailure e2 = None \<and> ObjectId_new (params_id r2) = Inr i \<and>
            voterIpOf r2 = voterIpOf r \<and>
            setHours0 (tzOffset e2) (clock e2 0) = setHours0 (tzOffset e) (clock e 0) + msPerDay \<longrightarrow>
            (\<exists>n. fst (vote e2 r2 (snd (vote e r w))) = VoteOk n))"
proof (intro conjI allI impI)
  let ?dup = "\<lambda>e r w. \<exists>l\<in>set (vote_logs w). cpId l = i \<and> voterIp l = voterIpOf r \<and>
               setHours0 (tzOffset e) (clock e 0) \<le> votedAt l"
  show "fst (vote e r w) = Failure 400 AlreadyVotedToday \<longleftrightarrow> ?dup e r w"
  proof
    assume "?dup e r w"
    from vote_duplicate[OF assms this] show "fst (vote e r w) = Failure 400 AlreadyVotedToday" by simp
  next
    assume f: "fst (vote e r w) = Failure 400 AlreadyVotedToday"
    show "?dup e r w"
    proof (rule ccontr)
      assume nd: "\<not> ?dup e r w"
      show False
      proof (cases "i \<in> cp_id ` set (cps w)")
        case False
        from vote_not_found[OF assms nd False] f show False by simp
      next
        case True
        with nd vote_ok_iff[OF assms, of w] f show False by auto
      qed
    qed
  qed
next
  fix e2 :: env and r2 :: vote_req
  assume a: "(\<exists>n. fst (vote e r w) = VoteOk n) \<and> clock e 0 \<le> clock e 2 \<and>
            storeFailure e2 = None \<and> ObjectId_new (params_id r2) = Inr i \<and>
            voterIpOf r2 = voterIpOf r \<and>
            setHours0 (tzOffset e2) (clock e2 0) = setHours0 (tzOffset e) (clock e 0)"
  then obtain n where n: "fst (vote e r w) = VoteOk n" by blast
  let ?l = "\<lparr>cpId = i, voterIp = voterIpOf r, votedAt = clock e 2\<rparr>"
  have "?l \<in> set (vote_logs (snd (vote e r w)))"
    using vote_success_world(1)[OF assms n] by simp
  moreover have "setHours0 (tzOffset e2) (clock e2 0) \<le> votedAt ?l"
    using a setHours0_le[of "tzOffset e" "clock e 0"] by simp
  ultimately have "\<exists>l\<in>set (vote_logs (snd (vote e r w))). cpId l = i \<and> voterIp l = voterIpOf r2 \<and>
               setHours0 (tzOffset e2) (clock e2 0) \<le> votedAt l"
    using a by (intro bexI[of _ ?l]) simp_all
  from vote_duplicate[of r2 i e2 "snd (vote e r w)"] this a
  show "fst (vote e2 r2 (snd (vote e r w))) = Failure 400 AlreadyVotedToday" by simp
next
  fix e2 :: env and r2 :: vote_req
  assume a: "(\<exists>n. fst (vote e r w) = VoteOk n) \<and>
            clock e 2 < setHours0 (tzOffset e) (clock e 0) + msPerDay \<and>
            storeFailure e2 = None \<and> ObjectId_new (params_id r2) = Inr i \<and>
            voterIpOf r2 = voterIpOf r \<and>
            setHours0 (tzOffset e2) (clock e2 0) = setHours0 (tzOffset e) (clock e 0) + msPerDay"
  then obtain n where n: "fst (vote e r w) = VoteOk n" by blast
  from vote_ok_iff[OF assms, of w] n
  have nd: "\<forall>l\<in>set (vote_logs w). cpId l = i \<and> voterIp l = voterIpOf r \<longrightarrow>
               votedAt l < setHours0 (tzOffset e) (clock e 0)"
    and ex: "i \<in> cp_id ` set (cps w)" by force+
  have "\<not> (\<exists>l\<in>set (vote_logs (snd (vote e r w))). cpId l = i \<and> voterIp l = voterIpOf r2 \<and>
               setHours0 (tzOffset e2) (clock e2 0) \<le> votedAt l)"
    using nd a by (auto simp: vote_success_world(1)[OF assms n] msPerDay_def)
  moreover have "i \<in> cp_id ` set (cps (snd (vote e r w)))"
    using ex vote_success_world(2)[OF assms n] by simp
  moreover have "ObjectId_new (params_id r2) = Inr i" and "storeFailure e2 = None"
    using a by simp_all
  note vote_ok_iff[OF this, of "snd (vote e r w)"]
  ultimately show "\<exists>n. fst (vote e2 r2 (snd (vote e r w))) = VoteOk n"
    by simp
qed

theorem vote_duplicate_iff_witness:
  "ObjectId_new (params_id sample_vote) = Inr 167 \<and> storeFailure (env_at 1000) = None \<and>
   fst (vote (env_at 1000) sample_vote sample_world) \<noteq> Failure 400 AlreadyVotedToday \<and>
   fst (vote (env_at 2000) sample_vote (snd (vote (env_at 1000) sample_vote sample_world)))
     = Failure 400 AlreadyVotedToday \<and>
   (\<exists>n. fst (vote (env_at 86401000) sample_vote
            (snd (vote (env_at 1000) sample_vote sample_world))) = VoteOk n)"
proof -
  have h1: "ObjectId_new (params_id sample_vote) = Inr 167"
    by (simp add: sample_vote_def sample_id_new)
  have h2: "storeFailure (env_at t) = None" for t
    by (simp add: env_at_def)
  note T = vote_duplicate_iff[OF h1 h2, of 1000 sample_world]
  have ok: "\<exists>n. fst (vote (env_at 1000) sample_vote sample_world) = VoteOk n"
    using sample_vote_ok by simp
  have c1: "fst (vote (env_at 1000) sample_vote sample_world) \<noteq> Failure 400 AlreadyVotedToday"
    using T[THEN conjunct1] by (simp add: sample_world_def)
  have c2: "fst (vote (env_at 2000) sample_vote (snd (vote (env_at 1000) sample_vote sample_world)))
     = Failure 400 AlreadyVotedToday"
    using T[THEN conjunct2, THEN conjunct1, rule_format, of "env_at 2000" sample_vote] ok h1 h2
    by (simp add: env_at_def setHours0_def msPerDay_def)
  have c3: "\<exists>n. fst (vote (env_at 86401000) sample_vote
            (snd (vote (env_at 1000) sample_vote sample_world))) = VoteOk n"
    using T[THEN conjunct2, THEN conjunct2, rule_format, of "env_at 86401000" sample_vote] ok h1 h2
    by (simp add: env_at_def setHours0_def msPerDay_def)
  from h1 h2 c1 c2 c3 show ?thesis by blast
qed

text \<open>
  C2. A vote succeeds on an existing item whose voter has no log for it today, and
  every successful vote changes exactly one document of \<open>cps\<close>, the first whose \<open>_id\<close> is
  the requested one: its \<open>votes\<close> grows by one and its \<open>updatedAt\<close> becomes the clock reading
  of the update. Exactly one log is appended, carrying the item id, the voter IP and the
  clock reading of the insertion, and the response carries the previous count plus one.
\<close>

theorem vote_success_effect:
  "(ObjectId_new (params_id r) = Inr i \<and> storeFailure e = None \<and>
    find (\<lambda>d. cp_id d = i) (cps w) = Some d \<and>
    \<not> (\<exists>l\<in>set (vote_logs w). cpId l = i \<and> voterIp l = voterIpOf r \<and>
          setHours0 (tzOffset e) (clock e 0) \<le> votedAt l)
    \<longrightarrow> fst (vote e r w) = VoteOk (votes d + 1)) \<and>
   (fst (vote e r w) = VoteOk n \<longrightarrow>
     (\<exists>j c k. ObjectId_new (params_id r) = Inr j \<and> k < length (cps w) \<and> cps w ! k = c \<and>
        cp_id c = j \<and> (\<forall>m<k. cp_id (cps w ! m) \<noteq> j) \<and>
        n = votes c + 1 \<and>
        cps (snd (vote e r w)) = (cps w)[k := c\<lparr>votes := votes c + 1, updatedAt := clock e 1\<rparr>] \<and>
        vote_logs (snd (vote e r w)) =
          vote_logs w @ [\<lparr>cpId = j, voterIp = voterIpOf r, votedAt = clock e 2\<rparr>]))"
proof (intro conjI impI)
  assume a: "ObjectId_new (params_id r) = Inr i \<and> storeFailure e = None \<and>
    find (\<lambda>d. cp_id d = i) (cps w) = Some d \<and>
    \<not> (\<exists>l\<in>set (vote_logs w). cpId l = i \<and> voterIp l = voterIpOf r \<and>
          setHours0 (tzOffset e) (clock e 0) \<le> votedAt l)"
  then have "ObjectId_new (params_id r) = Inr i" "storeFailure e = None"
    "\<not> (\<exists>l\<in>set (vote_logs w). cpId l = i \<and> voterIp l = voterIpOf r \<and>
          setHours0 (tzOffset e) (clock e 0) \<le> votedAt l)"
    "find (\<lambda>d. cp_id d = i) (cps w) = Some d" by simp_all
  from vote_success[OF this] show "fst (vote e r w) = VoteOk (votes d + 1)" by auto
next
  assume ok: "fst (vote e r w) = VoteOk n"
  from vote_ok_requires[OF ok] obtain j where j: "ObjectId_new (params_id r) = Inr j"
    and up: "storeFailure e = None" by blast
  from vote_ok_iff[OF j up, of w] ok
  have nd: "\<not> (\<exists>l\<in>set (vote_logs w). cpId l = j \<and> voterIp l = voterIpOf r \<and>
          setHours0 (tzOffset e) (clock e 0) \<le> votedAt l)" and "j \<in> cp_id ` set (cps w)"
    by blast+
  then obtain c where c: "find (\<lambda>d. cp_id d = j) (cps w) = Some c"
    using find_absent[of j "cps w"] by fastforce
  from vote_success[OF j up nd c] obtain k where k: "k < length (cps w)" "cps w ! k = c"
    "\<forall>m<k. cp_id (cps w ! m) \<noteq> j"
    "vote e r w = (VoteOk (votes c + 1),
             (snd (connectToDatabase e w))
               \<lparr>cps := (cps w)[k := c\<lparr>votes := votes c + 1, updatedAt := clock e 1\<rparr>],
                vote_logs := vote_logs w @ [\<lparr>cpId = j, voterIp = voterIpOf r, votedAt = clock e 2\<rparr>]\<rparr>)"
    by blast
  have "cp_id c = j" using find_present_id[OF c] by simp
  moreover have "n = votes c + 1" using ok k(4) by simp
  ultimately show "\<exists>j c k. ObjectId_new (params_id r) = Inr j \<and> k < length (cps w) \<and> cps w ! k = c \<and>
        cp_id c = j \<and> (\<forall>m<k. cp_id (cps w ! m) \<noteq> j) \<and>
        n = votes c + 1 \<and>
        cps (snd (vote e r w)) = (cps w)[k := c\<lparr>votes := votes c + 1, updatedAt := clock e 1\<rparr>] \<and>
        vote_logs (snd (vote e r w)) =
          vote_logs w @ [\<lparr>cpId = j, voterIp = voterIpOf r, votedAt = clock e 2\<rparr>]"
    using j k by (intro exI[of _ j] exI[of _ c] exI[of _ k]) simp
qed

theorem vote_success_effect_witness:
  "fst (vote (env_at 1000) sample_vote sample_world) = VoteOk (votes sample_cp + 1) \<and>
   (\<exists>k. k < length (cps sample_world) \<and>
      cps (snd (vote (env_at 1000) sample_vote sample_world)) =
        (cps sample_world)[k := (cps sample_world ! k)\<lparr>votes := votes (cps sample_world ! k) + 1,
                                 updatedAt := 1001\<rparr>]) \<and>
   vote_logs (snd (vote (env_at 1000) sample_vote sample_world)) =
      vote_logs sample_world @ [\<lparr>cpId = 167, voterIp = voterIpOf sample_vote, votedAt = 1002\<rparr>]"
proof -
  have h1: "ObjectId_new (params_id sample_vote) = Inr 167"
    by (simp add: sample_vote_def sample_id_new)
  have h2: "storeFailure (env_at 1000) = None" by (simp add: env_at_def)
  have h3: "find (\<lambda>d. cp_id d = 167) (cps sample_world) = Some sample_cp"
    by (simp add: sample_world_def sample_cp_def)
  have h4: "\<not> (\<exists>l\<in>set (vote_logs sample_world). cpId l = 167 \<and> voterIp l = voterIpOf sample_vote \<and>
          setHours0 (tzOffset (env_at 1000)) (clock (env_at 1000) 0) \<le> votedAt l)"
    by (simp add: sample_world_def)
  note T = vote_success_effect[of sample_vote 167 "env_at 1000" sample_world sample_cp "votes sample_cp + 1"]
  from T[THEN conjunct1] h1 h2 h3 h4
  have ok: "fst (vote (env_at 1000) sample_vote sample_world) = VoteOk (votes sample_cp + 1)"
    by blast
  from T[THEN conjunct2] ok obtain j c k where
    r: "ObjectId_new (params_id sample_vote) = Inr j" "k < length (cps sample_world)"
       "cps sample_world ! k = c"
       "cps (snd (vote (env_at 1000) sample_vote sample_world)) =
          (cps sample_world)[k := c\<lparr>votes := votes c + 1, updatedAt := clock (env_at 1000) 1\<rparr>]"
       "vote_logs (snd (vote (env_at 1000) sample_vote sample_world)) =
          vote_logs sample_world @
            [\<lparr>cpId = j, voterIp = voterIpOf sample_vote, votedAt = clock (env_at 1000) 2\<rparr>]"
    by blast
  have j: "j = 167" using r(1) h1 by simp
  have ck: "clock (env_at 1000) 1 = 1001" "clock (env_at 1000) 2 = 1002" by (simp_all add: env_at_def)
  from ok r j ck show ?thesis by auto
qed

text \<open>
  C3. A creation with a non-blank name and an image the upload middleware accepts (MIME
  type \<open>image/...\<close>, payload below 5 MiB, name and description below the 1 MiB the
  middleware allows a text field), the store answering and the driver's \<open>_id\<close> being
  new, returns and stores an item with \<open>votes = 0\<close>, the generated id (24 hexadecimal
  digits, so not empty), the trimmed name, the placeholder as description when none is
  sent (the trimmed description when a non-empty one is), \<open>createdAt\<close> and \<open>updatedAt\<close>
  set to the clock readings taken while the document is built, and the image as the data
  URI \<open>data:<mimetype>;base64,<payload>\<close>.
\<close>

theorem create_returns_item:
  assumes "body_name r = Some nm" and "trim nm \<noteq> []" and "image r = Some f"
    and "startsWith (mimetype f) (ascii ''image/'')" and "length (buffer f) < fileSizeLimit"
    and "utf8_length nm < fieldSizeLimit"
    and "\<forall>d. body_description r = Some d \<longrightarrow> utf8_length d < fieldSizeLimit"
    and "storeFailure e = None" and "insertedId e \<notin> cp_id ` set (cps w)"
  shows "\<exists>c. fst (createCP e r w) = Created (cp_id c) c \<and>
           cps (snd (createCP e r w)) = cps w @ [c] \<and>
           votes c = 0 \<and>
           cp_id c = insertedId e \<and> toHexString (cp_id c) \<noteq> [] \<and>
           name c = trim nm \<and>
           (body_description r = None \<longrightarrow> description c = placeholder) \<and>
           (\<forall>d. body_description r = Some d \<and> d \<noteq> [] \<longrightarrow> description c = trim d) \<and>
           createdAt c = clock e 0 \<and> updatedAt c = clock e 1 \<and>
           imageUrl c = ascii ''data:'' @ mimetype f @ ascii '';base64,'' @ base64 (buffer f)"
proof -
  let ?c = "\<lparr>cp_id = insertedId e, name = trim nm,
        description = trim (or_else (body_description r) placeholder),
        imageUrl = ascii ''data:'' @ mimetype f @ ascii '';base64,'' @ base64 (buffer f),
        votes = 0, createdAt = clock e 0, updatedAt = clock e 1\<rparr>"
  have "\<not> overlong (body_name r)" using assms(1,6) by (simp add: overlong_iff)
  moreover have "\<not> overlong (body_description r)" using assms(7) by (auto simp: overlong_iff)
  moreover have "length (buffer f) \<le> fileSizeLimit" using assms(5) by simp
  ultimately have up: "upload_single r = Inr (Some f)"
    using assms(3,4) by (simp add: upload_single_accept)
  have hex: "toHexString (insertedId e) \<noteq> []"
    using toHexString_length[of "insertedId e"] by auto
  have d1: "body_description r = None \<longrightarrow> description ?c = placeholder"
    by (simp add: or_else_def trim_placeholder)
  have d2: "\<forall>d. body_description r = Some d \<and> d \<noteq> [] \<longrightarrow> description ?c = trim d"
    by (simp add: or_else_def)
  from createCP_ok[OF up assms(1,2,8,9)] hex d1 d2 show ?thesis
    by (intro exI[of _ ?c]) simp
qed

theorem create_returns_item_witness:
  "trim (ascii ''A'') \<noteq> [] \<and> utf8_length (ascii ''A'') < fieldSizeLimit \<and>
   (\<exists>c. fst (createCP (env_at 500) sample_create initial) = Created (cp_id c) c \<and>
      votes c = 0 \<and> toHexString (cp_id c) \<noteq> [] \<and> name c = ascii ''A'' \<and>
      createdAt c = 500 \<and> updatedAt c = 501 \<and>
      imageUrl c = ascii ''data:image/jpeg;base64,/9g='')"
proof -
  have h1: "body_name sample_create = Some (ascii ''A'')" by (simp add: sample_create_def)
  have h2: "trim (ascii ''A'') \<noteq> []" by (simp add: trim_def isWhiteSpace_def ascii_def)
  have h3: "image sample_create = Some \<lparr>mimetype = ascii ''image/jpeg'', buffer = [0xFF, 0xD8]\<rparr>"
    by (simp add: sample_create_def)
  have h4: "startsWith (mimetype \<lparr>mimetype = ascii ''image/jpeg'', buffer = [0xFF, 0xD8]\<rparr>) (ascii ''image/'')"
    by (simp add: ascii_def)
  have h5: "length (buffer \<lparr>mimetype = ascii ''image/jpeg'', buffer = [0xFF, 0xD8 :: 8 word]\<rparr>) < fileSizeLimit"
    by (simp add: fileSizeLimit_def)
  have h6: "utf8_length (ascii ''A'') < fieldSizeLimit"
    by (simp add: utf8_length_def utf8_bytes_def fieldSizeLimit_def ascii_def)
  have h7: "\<forall>d. body_description sample_create = Some d \<longrightarrow> utf8_length d < fieldSizeLimit"
    by (simp add: sample_create_def utf8_length_def utf8_bytes_def fieldSizeLimit_def ascii_def)
  have h8: "storeFailure (env_at 500) = None" by (simp add: env_at_def)
  have h9: "insertedId (env_at 500) \<notin> cp_id ` set (cps initial)" by (simp add: initial_def)
  from create_returns_item[OF h1 h2 h3 h4 h5 h6 h7 h8 h9] obtain c where
    c: "fst (createCP (env_at 500) sample_create initial) = Created (cp_id c) c"
       "votes c = 0" "toHexString (cp_id c) \<noteq> []" "name c = trim (ascii ''A'')"
       "createdAt c = clock (env_at 500) 0" "updatedAt c = clock (env_at 500) 1"
       "imageUrl c = ascii ''data:'' @ ascii ''image/jpeg'' @ ascii '';base64,'' @ base64 [0xFF, 0xD8]"
    by auto
  have "trim (ascii ''A'') = ascii ''A''" by (simp add: trim_def isWhiteSpace_def ascii_def)
  moreover have "clock (env_at 500) 0 = 500" "clock (env_at 500) 1 = 501" by (simp_all add: env_at_def)
  moreover have "ascii ''data:'' @ ascii ''image/jpeg'' @ ascii '';base64,'' @ base64 [0xFF, 0xD8]
      = ascii ''data:image/jpeg;base64,/9g=''" by (simp add: ascii_def b64char_def)
  ultimately show ?thesis using c h2 h6 by (intro conjI exI[of _ c]) simp_all
qed

text \<open>
  C4. While the store answers, the listing route returns every stored item once (the
  result is a permutation of the collection: nothing is paged away), in non-increasing
  order of \<open>votes\<close> for the key \<open>votes\<close>, in non-decreasing lexicographic order of \<open>name\<close>
  for the key \<open>name\<close>, in non-increasing order of \<open>createdAt\<close> for the key \<open>newest\<close>; an
  absent key or any other key gives the answer of the key \<open>votes\<close>.
\<close>

theorem list_sorted:
  assumes "storeFailure e = None"
  shows "\<exists>xs. fst (getCPs e q w) = CpList xs \<and> mset xs = mset (cps w) \<and>
     (q = Some (ascii ''votes'') \<longrightarrow> sorted_wrt (\<lambda>a b. votes b \<le> votes a) xs) \<and>
     (q = Some (ascii ''name'') \<longrightarrow>
        sorted_wrt (\<lambda>a b. name a = name b \<or> (name a, name b) \<in> lexord {(u, v). u < v}) xs) \<and>
     (q = Some (ascii ''newest'') \<longrightarrow> sorted_wrt (\<lambda>a b. createdAt b \<le> createdAt a) xs) \<and>
     (q \<noteq> Some (ascii ''name'') \<and> q \<noteq> Some (ascii ''newest'') \<longrightarrow>
        fst (getCPs e q w) = fst (getCPs e (Some (ascii ''votes'')) w))"
proof -
  let ?xs = "find_sort (sortOption q) (cps w)"
  have v: "sortOption (Some (ascii ''votes'')) = VotesDesc"
    by (rule sortOption_cases(3)) (simp_all add: ascii_def)
  have 1: "fst (getCPs e q w) = CpList ?xs" by (rule getCPs_up[OF assms])
  have 2: "mset ?xs = mset (cps w)" by (rule find_sort_mset)
  have 3: "q = Some (ascii ''votes'') \<longrightarrow> sorted_wrt (\<lambda>a b. votes b \<le> votes a) ?xs"
    using v find_sort_votes by simp
  have 4: "q = Some (ascii ''name'') \<longrightarrow>
        sorted_wrt (\<lambda>a b. name a = name b \<or> (name a, name b) \<in> lexord {(u, v). u < v}) ?xs"
    using sortOption_cases(2) find_sort_name by simp
  have 5: "q = Some (ascii ''newest'') \<longrightarrow> sorted_wrt (\<lambda>a b. createdAt b \<le> createdAt a) ?xs"
    using sortOption_cases(1) find_sort_newest by simp
  have 6: "q \<noteq> Some (ascii ''name'') \<and> q \<noteq> Some (ascii ''newest'') \<longrightarrow>
        fst (getCPs e q w) = fst (getCPs e (Some (ascii ''votes'')) w)"
    using getCPs_up[OF assms] v sortOption_cases(3)[of q] by simp
  from 1 2 3 4 5 6 show ?thesis by blast
qed

theorem list_sorted_witness:
  "storeFailure (env_at 1000) = None \<and>
   fst (getCPs (env_at 1000) (Some (ascii ''name'')) sample_world3) = CpList [sample_cp, sample_cp_ab, sample_cp_b] \<and>
   sorted_wrt (\<lambda>a b. name a = name b \<or> (name a, name b) \<in> lexord {(u, v). u < v})
     [sample_cp, sample_cp_ab, sample_cp_b] \<and>
   fst (getCPs (env_at 1000) (Some (ascii ''top'')) sample_world3) = CpList [sample_cp_b, sample_cp_ab, sample_cp] \<and>
   sorted_wrt (\<lambda>a b. votes b \<le> votes a) [sample_cp_b, sample_cp_ab, sample_cp]"
proof -
  have h: "storeFailure (env_at 1000) = None" by (simp add: env_at_def)
  from list_sorted[OF h, of "Some (ascii ''name'')" sample_world3] sample_list_name
  have n: "sorted_wrt (\<lambda>a b. name a = name b \<or> (name a, name b) \<in> lexord {(u, v). u < v})
     [sample_cp, sample_cp_ab, sample_cp_b]" by auto
  have ne: "Some (ascii ''top'') \<noteq> Some (ascii ''name'') \<and> Some (ascii ''top'') \<noteq> Some (ascii ''newest'')"
    by (simp add: ascii_def)
  have vv: "fst (getCPs (env_at 1000) (Some (ascii ''votes'')) sample_world3) = CpList [sample_cp_b, sample_cp_ab, sample_cp]"
    by (simp add: getCPs_def connectToDatabase_def driverCall_def env_at_def sample_world3_def
      sortOption_def find_sort_def ascii_def sample_cp_def sample_cp_b_def sample_cp_ab_def)
  from list_sorted[OF h, of "Some (ascii ''top'')" sample_world3] ne vv
  have t: "fst (getCPs (env_at 1000) (Some (ascii ''top'')) sample_world3) = CpList [sample_cp_b, sample_cp_ab, sample_cp]"
    by auto
  from list_sorted[OF h, of "Some (ascii ''votes'')" sample_world3] vv
  have s: "sorted_wrt (\<lambda>a b. votes b \<le> votes a) [sample_cp_b, sample_cp_ab, sample_cp]" by auto
  from h sample_list_name n t s show ?thesis by blast
qed

text \<open>
  C5. The creation route at a file whose MIME type is \<open>text/plain\<close> (name and
  description of one letter each): the file filter's
  error is passed to \<open>next\<close>, the route handler (whose \<open>catch\<close> would answer 400 for that
  message) never runs, and the error middleware answers 500. Nothing is stored.
\<close>

theorem create_non_image_rejected_500:
  "createCP (env_new 700 168) sample_create_text sample_world = (Failure 500 ServerError, sample_world)"
  by (simp add: createCP_def upload_single_def overlong_def utf8_length_def utf8_bytes_def
      fieldSizeLimit_def errorMiddleware_def sample_create_text_def ascii_def)

text \<open>
  C6. In every world the service can reach, a vote whose id is well formed and is the
  \<open>_id\<close> of no stored item is answered with status 404, "CP not found" (the store
  answering). No log can refer to an item that was never stored, so the duplicate check
  cannot fire first.
\<close>

theorem vote_unknown_item:
  assumes "reachable w" and "ObjectId_new (params_id r) = Inr i" and "storeFailure e = None"
    and "i \<notin> cp_id ` set (cps w)"
  shows "fst (vote e r w) = Failure 404 CpNotFound"
proof -
  from reachable_logs_refer[OF assms(1)] assms(4)
  have "\<not> (\<exists>l\<in>set (vote_logs w). cpId l = i \<and> voterIp l = voterIpOf r \<and>
          setHours0 (tzOffset e) (clock e 0) \<le> votedAt l)" by auto
  from vote_not_found[OF assms(2,3) this assms(4)] show ?thesis by simp
qed

theorem vote_unknown_item_witness:
  "reachable sample_world \<and> ObjectId_new (params_id sample_vote_unknown) = Inr 168 \<and>
   storeFailure (env_at 1000) = None \<and> 168 \<notin> cp_id ` set (cps sample_world) \<and>
   fst (vote (env_at 1000) sample_vote_unknown sample_world) = Failure 404 CpNotFound"
proof -
  have h3: "storeFailure (env_at 1000) = None" by (simp add: env_at_def)
  have h4: "168 \<notin> cp_id ` set (cps sample_world)" by (simp add: sample_world_def sample_cp_def)
  from vote_unknown_item[OF sample_reachable sample_unknown_new h3 h4]
    sample_reachable sample_unknown_new h3 h4
  show ?thesis by blast
qed

text \<open>
  C7. No item ever has a negative vote count: it holds in every reachable world, a
  created item starts at 0, a request keeps every stored item in place and leaves its
  \<open>votes\<close> as it was or, if the request is a vote, one higher, and so every request
  preserves the invariant.
\<close>

theorem votes_never_negative:
  "(reachable w \<longrightarrow> (\<forall>c\<in>set (cps w). 0 \<le> votes c)) \<and>
   (fst (createCP e cr w) = Created i c \<longrightarrow> votes c = 0) \<and>
   length (cps w) \<le> length (cps (snd (handle e rq w))) \<and>
   (\<forall>k<length (cps w).
      cp_id (cps (snd (handle e rq w)) ! k) = cp_id (cps w ! k) \<and>
      (votes (cps (snd (handle e rq w)) ! k) = votes (cps w ! k) \<or>
       (\<exists>vr. rq = Vote vr) \<and> votes (cps (snd (handle e rq w)) ! k) = votes (cps w ! k) + 1)) \<and>
   ((\<forall>c\<in>set (cps w). 0 \<le> votes c) \<longrightarrow> (\<forall>c\<in>set (cps (snd (handle e rq w))). 0 \<le> votes c))"
  using reachable_nonneg[of w] createCP_created[of e cr w i c] handle_votes_step[of w e rq]
    handle_nonneg[of w e rq]
  by blast

theorem votes_never_negative_witness:
  "reachable (snd (vote (env_at 1000) sample_vote sample_world)) \<and>
   cps (snd (vote (env_at 1000) sample_vote sample_world)) = [sample_cp\<lparr>votes := 1, updatedAt := 1001\<rparr>] \<and>
   0 \<le> votes (sample_cp\<lparr>votes := 1, updatedAt := 1001\<rparr>) \<and>
   fst (createCP (env_at 500) sample_create initial) = Created 167 sample_cp \<and> votes sample_cp = 0 \<and>
   votes (cps (snd (handle (env_at 1000) (Vote sample_vote) sample_world)) ! 0) = votes (cps sample_world ! 0) + 1"
proof -
  have r: "reachable (snd (vote (env_at 1000) sample_vote sample_world))"
    using reach_request[OF sample_reachable, of "env_at 1000" "Vote sample_vote"] by simp
  have c: "cps (snd (vote (env_at 1000) sample_vote sample_world)) = [sample_cp\<lparr>votes := 1, updatedAt := 1001\<rparr>]"
    by (simp add: sample_vote_world)
  have k: "fst (createCP (env_at 500) sample_create initial) = Created 167 sample_cp"
    by (simp add: sample_world_created)
  note T = votes_never_negative[of "snd (vote (env_at 1000) sample_vote sample_world)"
      "env_at 500" sample_create 167 sample_cp]
  from T r c have 1: "0 \<le> votes (sample_cp\<lparr>votes := 1, updatedAt := 1001\<rparr>)" by simp
  have 2: "votes sample_cp = 0"
    using votes_never_negative[of initial "env_at 500" sample_create 167 sample_cp] k by blast
  have 3: "votes (cps (snd (handle (env_at 1000) (Vote sample_vote) sample_world)) ! 0) = votes (cps sample_world ! 0) + 1"
    by (simp only: handle.simps sample_vote_world) (simp add: sample_world_def sample_cp_def)
  from r c 1 k 2 3 show ?thesis by blast
qed

text \<open>
  C8. Once \<open>connectToDatabase\<close> has returned a handle, every later call, after any
  sequence of requests, returns that handle and leaves the world as it is; the number of
  clients connected does not grow. When no handle is cached and the store does not
  answer, \<open>connectToDatabase\<close> throws, every route that reaches it answers 500, the world
  is unchanged, and the process goes on serving: the next health check with the store
  back answers 200.
\<close>

theorem connect_once:
  "(connectToDatabase e w = (Inr h, w1) \<longrightarrow>
      (\<forall>es e2. connectToDatabase e2 (run es w1) = (Inr h, run es w1) \<and>
               clients (run es w1) = clients w1)) \<and>
   (db w = None \<and> storeFailure e = Some m \<longrightarrow>
      connectToDatabase e w = (Inl (JsError (ascii m)), w) \<and>
      (\<forall>rq. snd (handle e rq w) = w) \<and>
      status (fst (handle e Health w)) = 500 \<and>
      (\<forall>q. status (fst (handle e (GetCPs q) w)) = 500) \<and>
      (\<forall>cr f nm. upload_single cr = Inr (Some f) \<and> body_name cr = Some nm \<and> trim nm \<noteq> [] \<longrightarrow>
         status (fst (handle e (CreateCP cr) w)) = 500) \<and>
      (\<forall>vr. ObjectId_isValid (params_id vr) \<longrightarrow> status (fst (handle e (Vote vr) w)) = 500) \<and>
      (\<forall>i. ObjectId_isValid i \<longrightarrow> status (fst (handle e (GetCPDetail i) w)) = 500) \<and>
      (\<forall>rq e2. storeFailure e2 = None \<longrightarrow>
         fst (handle e2 Health (snd (handle e rq w))) = HealthOk (clock e2 0)))"
proof (intro conjI impI allI)
  fix es e2
  assume c: "connectToDatabase e w = (Inr h, w1)"
  have "db w1 = Some h" by (rule connect_sets_db[OF c])
  from run_cached[OF this, of es]
  have d: "db (run es w1) = Some h" and n: "clients (run es w1) = clients w1" by simp_all
  show "connectToDatabase e2 (run es w1) = (Inr h, run es w1)" by (rule connect_cached[OF d])
  show "clients (run es w1) = clients w1" by (rule n)
next
  assume a: "db w = None \<and> storeFailure e = Some m"
  then have d: "db w = None" and s: "storeFailure e = Some m" by simp_all
  show "connectToDatabase e w = (Inl (JsError (ascii m)), w)" by (rule connect_down[OF s d])
  show "snd (handle e rq w) = w" for rq by (rule handle_down[OF d s])
  show "status (fst (handle e Health w)) = 500" by (simp add: healthCheck_down[OF d s])
  show "status (fst (handle e (GetCPs q) w)) = 500" for q by (simp add: getCPs_down[OF d s])
  show "status (fst (handle e (CreateCP cr) w)) = 500"
    if "upload_single cr = Inr (Some f) \<and> body_name cr = Some nm \<and> trim nm \<noteq> []" for cr f nm
    using that createCP_down(2)[OF d s, of cr f nm] by simp
  show "status (fst (handle e (Vote vr) w)) = 500" if "ObjectId_isValid (params_id vr)" for vr
    using that vote_down(2)[OF d s, of vr] by simp
  show "status (fst (handle e (GetCPDetail i) w)) = 500" if "ObjectId_isValid i" for i
    using that getCPDetail_down(2)[OF d s, of i] by simp
  show "fst (handle e2 Health (snd (handle e rq w))) = HealthOk (clock e2 0)"
    if "storeFailure e2 = None" for rq e2
    using healthCheck_up[OF that] by simp
qed

theorem connect_once_witness:
  "connectToDatabase (env_at 500) initial = (Inr 0, initial\<lparr>db := Some 0, clients := 1\<rparr>) \<and>
   connectToDatabase env_down (run [(env_at 500, CreateCP sample_create), (env_at 1000, Vote sample_vote)]
       (initial\<lparr>db := Some 0, clients := 1\<rparr>))
     = (Inr 0, run [(env_at 500, CreateCP sample_create), (env_at 1000, Vote sample_vote)]
       (initial\<lparr>db := Some 0, clients := 1\<rparr>)) \<and>
   db initial = None \<and> storeFailure env_down = Some ''connect ECONNREFUSED'' \<and>
   status (fst (handle env_down Health initial)) = 500 \<and>
   status (fst (handle env_down (GetCPs None) initial)) = 500 \<and>
   status (fst (handle env_down (CreateCP sample_create) initial)) = 500 \<and>
   status (fst (handle env_down (Vote sample_vote) initial)) = 500 \<and>
   status (fst (handle env_down (GetCPDetail sample_id) initial)) = 500 \<and>
   snd (handle env_down (Vote sample_vote) initial) = initial"
proof -
  have c: "connectToDatabase (env_at 500) initial = (Inr 0, initial\<lparr>db := Some 0, clients := 1\<rparr>)"
    by (simp add: connectToDatabase_def driverCall_def env_at_def initial_def)
  have d: "db initial = None" by (simp add: initial_def)
  have s: "storeFailure env_down = Some ''connect ECONNREFUSED''" by (simp add: env_down_def)
  have u: "upload_single sample_create = Inr (Some \<lparr>mimetype = ascii ''image/jpeg'', buffer = [0xFF, 0xD8]\<rparr>)
      \<and> body_name sample_create = Some (ascii ''A'') \<and> trim (ascii ''A'') \<noteq> []"
    by (simp add: upload_single_def overlong_def utf8_length_def utf8_bytes_def fieldSizeLimit_def
        sample_create_def fileSizeLimit_def ascii_def trim_def isWhiteSpace_def)
  have v: "ObjectId_isValid (params_id sample_vote)" "ObjectId_isValid sample_id"
    using sample_id_new by (simp_all add: sample_vote_def ObjectId_new_valid)
  note T1 = connect_once[of "env_at 500" initial 0 "initial\<lparr>db := Some 0, clients := 1\<rparr>",
      THEN conjunct1, rule_format, OF c]
  note T2 = connect_once[of env_down initial _ _ "''connect ECONNREFUSED''", THEN conjunct2, rule_format]
  have d2: "db initial = None \<and> storeFailure env_down = Some ''connect ECONNREFUSED''"
    using d s by simp
  from T1[where es = "[(env_at 500, CreateCP sample_create), (env_at 1000, Vote sample_vote)]"
      and ?e2.0 = env_down]
    T2[OF d2] c d s u v
  show ?thesis by blast
qed

text \<open>
  C9. A vote refused for a malformed id (400), as a duplicate of today's vote (400) or
  for an unknown id (404) leaves both collections as they were.
\<close>

theorem vote_failure_no_change:
  assumes "fst (vote e r w) = Failure 400 InvalidIdFormat \<or>
           fst (vote e r w) = Failure 400 AlreadyVotedToday \<or>
           fst (vote e r w) = Failure 404 CpNotFound"
  shows "cps (snd (vote e r w)) = cps w \<and> vote_logs (snd (vote e r w)) = vote_logs w"
proof -
  from assms have "\<forall>n. fst (vote e r w) \<noteq> VoteOk n" by auto
  then show ?thesis by (rule vote_unchanged_unless_ok)
qed

theorem vote_failure_no_change_witness:
  "(fst (vote (env_at 1000) sample_vote_malformed sample_world) = Failure 400 InvalidIdFormat \<and>
    cps (snd (vote (env_at 1000) sample_vote_malformed sample_world)) = cps sample_world \<and>
    vote_logs (snd (vote (env_at 1000) sample_vote_malformed sample_world)) = vote_logs sample_world) \<and>
   (fst (vote (env_at 2000) sample_vote (snd (vote (env_at 1000) sample_vote sample_world)))
      = Failure 400 AlreadyVotedToday \<and>
    cps (snd (vote (env_at 2000) sample_vote (snd (vote (env_at 1000) sample_vote sample_world))))
      = cps (snd (vote (env_at 1000) sample_vote sample_world)) \<and>
    vote_logs (snd (vote (env_at 2000) sample_vote (snd (vote (env_at 1000) sample_vote sample_world))))
      = vote_logs (snd (vote (env_at 1000) sample_vote sample_world))) \<and>
   (fst (vote (env_at 1000) sample_vote_unknown sample_world) = Failure 404 CpNotFound \<and>
    cps (snd (vote (env_at 1000) sample_vote_unknown sample_world)) = cps sample_world \<and>
    vote_logs (snd (vote (env_at 1000) sample_vote_unknown sample_world)) = vote_logs sample_world)"
  using vote_failure_no_change[of "env_at 1000" sample_vote_malformed sample_world]
    vote_failure_no_change[of "env_at 2000" sample_vote "snd (vote (env_at 1000) sample_vote sample_world)"]
    vote_failure_no_change[of "env_at 1000" sample_vote_unknown sample_world]
    sample_malformed sample_repeat sample_unknown
  by simp

text \<open>
  C10. In a creation that succeeds (as in C3: non-blank name, accepted image, name and
  description below the 1 MiB the middleware allows a text field, the store answering,
  a new \<open>_id\<close>), the stored description is the trimmed result of
  \<open>description || placeholder\<close>: the placeholder stands in exactly for an absent or empty
  description, and trimming comes after, so a non-empty description of white space only
  is stored as the empty string and not as the placeholder.
\<close>

theorem create_description_default:
  assumes "body_name r = Some nm" and "trim nm \<noteq> []" and "image r = Some f"
    and "startsWith (mimetype f) (ascii ''image/'')" and "length (buffer f) < fileSizeLimit"
    and "utf8_length nm < fieldSizeLimit"
    and "\<forall>d. body_description r = Some d \<longrightarrow> utf8_length d < fieldSizeLimit"
    and "storeFailure e = None" and "insertedId e \<notin> cp_id ` set (cps w)"
  shows "\<exists>c. fst (createCP e r w) = Created (cp_id c) c \<and>
           description c =
             trim (case body_description r of
                     None \<Rightarrow> placeholder
                   | Some d \<Rightarrow> if d = [] then placeholder else d) \<and>
           (body_description r = None \<or> body_description r = Some [] \<longrightarrow>
              description c = placeholder) \<and>
           (\<forall>d. body_description r = Some d \<and> d \<noteq> [] \<and> list_all isWhiteSpace d \<longrightarrow>
              description c = [] \<and> description c \<noteq> placeholder)"
proof -
  let ?c = "\<lparr>cp_id = insertedId e, name = trim nm,
        description = trim (or_else (body_description r) placeholder),
        imageUrl = ascii ''data:'' @ mimetype f @ ascii '';base64,'' @ base64 (buffer f),
        votes = 0, createdAt = clock e 0, updatedAt = clock e 1\<rparr>"
  have "\<not> overlong (body_name r)" using assms(1,6) by (simp add: overlong_iff)
  moreover have "\<not> overlong (body_description r)" using assms(7) by (auto simp: overlong_iff)
  moreover have "length (buffer f) \<le> fileSizeLimit" using assms(5) by simp
  ultimately have up: "upload_single r = Inr (Some f)"
    using assms(3,4) by (simp add: upload_single_accept)
  have d0: "description ?c = trim (case body_description r of
                     None \<Rightarrow> placeholder
                   | Some d \<Rightarrow> if d = [] then placeholder else d)"
    by (simp add: or_else_def)
  have d1: "body_description r = None \<or> body_description r = Some [] \<longrightarrow> description ?c = placeholder"
    by (auto simp: or_else_def trim_placeholder)
  have d2: "\<forall>d. body_description r = Some d \<and> d \<noteq> [] \<and> list_all isWhiteSpace d \<longrightarrow>
              description ?c = [] \<and> description ?c \<noteq> placeholder"
    by (auto simp: or_else_def trim_whitespace placeholder_def)
  have f0: "fst (createCP e r w) = Created (cp_id ?c) ?c"
    using createCP_ok[OF up assms(1,2,8,9)] by simp
  from f0 d0 d1 d2 show ?thesis by blast
qed

theorem create_description_default_witness:
  "utf8_length (ascii ''  '') < fieldSizeLimit \<and> list_all isWhiteSpace (ascii ''  '') \<and>
   (\<exists>c. fst (createCP (env_new 700 168) sample_create_blank sample_world) = Created (cp_id c) c \<and>
      description c = [] \<and> description c \<noteq> placeholder)"
proof -
  have h1: "body_name sample_create_blank = Some (ascii ''B'')" by (simp add: sample_create_blank_def)
  have h2: "trim (ascii ''B'') \<noteq> []" by (simp add: trim_def isWhiteSpace_def ascii_def)
  have h3: "image sample_create_blank = Some \<lparr>mimetype = ascii ''image/png'', buffer = [0x89]\<rparr>"
    by (simp add: sample_create_blank_def)
  have h4: "startsWith (mimetype \<lparr>mimetype = ascii ''image/png'', buffer = [0x89]\<rparr>) (ascii ''image/'')"
    by (simp add: ascii_def)
  have h5: "length (buffer \<lparr>mimetype = ascii ''image/png'', buffer = [0x89 :: 8 word]\<rparr>) < fileSizeLimit"
    by (simp add: fileSizeLimit_def)
  have h6: "utf8_length (ascii ''B'') < fieldSizeLimit"
    by (simp add: utf8_length_def utf8_bytes_def fieldSizeLimit_def ascii_def)
  have h7: "\<forall>d. body_description sample_create_blank = Some d \<longrightarrow> utf8_length d < fieldSizeLimit"
    by (simp add: sample_create_blank_def utf8_length_def utf8_bytes_def fieldSizeLimit_def ascii_def)
  have h8: "storeFailure (env_new 700 168) = None" by (simp add: env_new_def)
  have h9: "insertedId (env_new 700 168) \<notin> cp_id ` set (cps sample_world)"
    by (simp add: env_new_def sample_world_def sample_cp_def)
  have h10: "body_description sample_create_blank = Some (ascii ''  '') \<and> ascii ''  '' \<noteq> [] \<and>
     list_all isWhiteSpace (ascii ''  '')"
    by (simp add: sample_create_blank_def ascii_def isWhiteSpace_def)
  have h11: "utf8_length (ascii ''  '') < fieldSizeLimit"
    by (simp add: utf8_length_def utf8_bytes_def fieldSizeLimit_def ascii_def)
  from create_description_default[OF h1 h2 h3 h4 h5 h6 h7 h8 h9] h10 h11 show ?thesis
    by blast
qed

end
